theory Spec2Isabelle
  imports Main
begin

section \<open>Python values and exceptions\<close>

text \<open>
  An exception value carries the names of the classes it is an instance of (its own class
  first, then the base classes, as in the method resolution order) and its argument.
  \<open>except C as e\<close> catches \<open>e\<close> when \<open>e\<close> is an instance of \<open>C\<close>, or of a member of
  \<open>C\<close> when \<open>C\<close> is a tuple of classes; a single class is the one-element list here.
\<close>

datatype exc = Exc (exc_mro: "string list") (exc_arg: string)

definition isinstance :: "exc \<Rightarrow> string list \<Rightarrow> bool" where
  "isinstance e classes = list_ex (\<lambda>c. c \<in> set (exc_mro e)) classes"

definition KeyError :: "string \<Rightarrow> exc" where
  "KeyError k = Exc [''KeyError'', ''LookupError'', ''Exception'', ''BaseException''] k"

definition IndexError :: "string \<Rightarrow> exc" where
  "IndexError m = Exc [''IndexError'', ''LookupError'', ''Exception'', ''BaseException''] m"

definition ValueError :: "string \<Rightarrow> exc" where
  "ValueError m = Exc [''ValueError'', ''Exception'', ''BaseException''] m"

definition TypeError :: "string \<Rightarrow> exc" where
  "TypeError m = Exc [''TypeError'', ''Exception'', ''BaseException''] m"

definition AssertionError :: "string \<Rightarrow> exc" where
  "AssertionError m = Exc [''AssertionError'', ''Exception'', ''BaseException''] m"

definition KeyboardInterrupt :: "string \<Rightarrow> exc" where
  "KeyboardInterrupt m = Exc [''KeyboardInterrupt'', ''BaseException''] m"

text \<open>The module constant \<open>ALLOWED_DEV_EXCEPTIONS = (Exception)\<close>: the class \<open>Exception\<close>.\<close>

definition ALLOWED_DEV_EXCEPTIONS :: "string list" where
  "ALLOWED_DEV_EXCEPTIONS = [''Exception'']"

text \<open>
  The values that reach a template: configuration entries and message arguments. A
  function is named by its index in the table of validation functions (\<open>None\<close> is
  Python's \<open>None\<close> in the field \<open>validate_func\<close>).
\<close>

datatype pyval =
    VNone
  | VStr string
  | VInt int
  | VFunc nat
  | VExc exc
  | VObj nat

section \<open>FlagCode\<close>

text \<open>
  \<open>class FlagCode(enum.Enum)\<close>. The class body is a sequence of \<open>NAME = value\<close>
  assignments. \<open>enum.Enum\<close> turns them into members in that order: a name whose value
  equals the value of a member made earlier does not get a member of its own, it is bound
  to that earlier member (an alias). \<open>enum_build\<close> is that loop; the member map it returns
  is what attribute access \<open>FlagCode.NAME\<close> reads.
\<close>

datatype FlagCode = Member (member_name: string) (member_value: int)

definition FlagCode_body :: "(string \<times> int) list" where
  "FlagCode_body =
    [(''DEV_HANDLED'', 90), (''DEV_UNHANDLED'', 91),
     (''HALT1'', 80), (''HALT2'', 80), (''HALT3'', 80), (''HALT4'', 80), (''HALT5'', 80),
     (''RED1'', 50), (''RED2'', 50), (''RED3'', 50), (''RED4'', 50), (''RED5'', 50),
     (''YELLOW1'', 30), (''YELLOW2'', 30), (''YELLOW3'', 30), (''YELLOW4'', 30),
     (''YELLOW5'', 30),
     (''GREEN'', 20), (''INFO'', 10)]"

fun enum_build :: "(string \<times> int) list \<Rightarrow> (string \<times> FlagCode) list \<Rightarrow> (string \<times> FlagCode) list" where
  "enum_build [] member_map = member_map"
| "enum_build ((n, v) # body) member_map =
     enum_build body
       (member_map @
         [(n, case find (\<lambda>(_, m). member_value m = v) member_map of
                Some (_, canonical) \<Rightarrow> canonical
              | None \<Rightarrow> Member n v)])"

definition FlagCode_member_map :: "(string \<times> FlagCode) list" where
  "FlagCode_member_map = enum_build FlagCode_body []"

text \<open>\<open>FlagCode.NAME\<close>: \<open>None\<close> stands for the AttributeError of an unknown name.\<close>

definition FlagCode_attr :: "string \<Rightarrow> FlagCode option" where
  "FlagCode_attr n = map_of FlagCode_member_map n"

text \<open>Iterating the class yields the members proper, aliases left out.\<close>

definition FlagCode_members :: "FlagCode list" where
  "FlagCode_members = remdups (map snd FlagCode_member_map)"

definition DEV_UNHANDLED :: FlagCode where
  "DEV_UNHANDLED = Member ''DEV_UNHANDLED'' 91"

definition GREEN :: FlagCode where
  "GREEN = Member ''GREEN'' 20"

section \<open>Strings and decimal digits\<close>

text \<open>
  A Python \<open>str\<close> is a sequence of Unicode code points. A check ID is kept as the list
  of its code points (\<open>ustring\<close>); \<open>code_point\<close> is Python's \<open>ord\<close> on the characters
  below 256, and \<open>ustr\<close> reads a string of such characters as a \<open>str\<close>. Python's code
  points end at 1114111; the lists are not bounded, and no number beyond is a digit.
\<close>

type_synonym ustring = "nat list"

definition code_point :: "char \<Rightarrow> nat" where
  "code_point c = of_char c"

definition ustr :: "string \<Rightarrow> ustring" where
  "ustr s = map code_point s"

definition underscore :: nat where
  "underscore = code_point (CHR ''_'')"

definition line_feed :: nat where
  "line_feed = code_point (CHR 0x0A)"

text \<open>
  The decimal digits. In a \<open>str\<close> pattern compiled without \<open>re.ASCII\<close>, \<open>\d\<close> matches
  every character that Unicode classes as a decimal digit (general category Nd, the
  characters for which \<open>str.isdecimal\<close> holds) and \<open>\D\<close> every other character; the
  formatter of \<open>str.format\<close> reads the digits of a numeric field name with the same
  test. \<open>decimal_ranges\<close> lists these characters as ranges of code points, first and
  last included, as the character database of Unicode 14.0 has them (CPython 3.11):
  \<open>0\<close> .. \<open>9\<close>, then the Arabic-Indic digits from code point 1632 on, and so on.
\<close>

definition decimal_ranges :: "(nat \<times> nat) list" where
  "decimal_ranges =
     [(48, 57), (1632, 1641), (1776, 1785), (1984, 1993), (2406, 2415), (2534, 2543),
      (2662, 2671), (2790, 2799), (2918, 2927), (3046, 3055), (3174, 3183), (3302, 3311),
      (3430, 3439), (3558, 3567), (3664, 3673), (3792, 3801), (3872, 3881), (4160, 4169),
      (4240, 4249), (6112, 6121), (6160, 6169), (6470, 6479), (6608, 6617), (6784, 6793),
      (6800, 6809), (6992, 7001), (7088, 7097), (7232, 7241), (7248, 7257), (42528, 42537),
      (43216, 43225), (43264, 43273), (43472, 43481), (43504, 43513), (43600, 43609),
      (44016, 44025), (65296, 65305), (66720, 66729), (68912, 68921), (69734, 69743),
      (69872, 69881), (69942, 69951), (70096, 70105), (70384, 70393), (70736, 70745),
      (70864, 70873), (71248, 71257), (71360, 71369), (71472, 71481), (71904, 71913),
      (72016, 72025), (72784, 72793), (73040, 73049), (73120, 73129), (92768, 92777),
      (92864, 92873), (93008, 93017), (120782, 120831), (123200, 123209), (123632, 123641),
      (125264, 125273), (130032, 130041)]"

definition unicode_decimal :: "nat \<Rightarrow> bool" where
  "unicode_decimal c = list_ex (\<lambda>(lo, hi). lo \<le> c \<and> c \<le> hi) decimal_ranges"

section \<open>The check ID pattern\<close>

text \<open>
  \<open>re.match(r"^(COMPONENT|SAMPLE|DATASET)_\D*_\d\d\d\d$", self.id)\<close>. The pattern is
  kept as a syntax tree and matched by a backtracking matcher: a position is the number
  of characters consumed and the rest of the input, and \<open>rx_match r p\<close> lists every
  position at which a match of \<open>r\<close> that starts at \<open>p\<close> can end. \<open>^\<close> matches where
  nothing has been consumed; \<open>$\<close> matches at the end of the input and just before a
  line feed that ends the input, as Python's \<open>$\<close> does without \<open>re.MULTILINE\<close>.
  \<open>re.match\<close> anchors the match at the start of the string only, and the assertion tests
  that a match exists. The input is a \<open>str\<close>, so \<open>\d\<close> and \<open>\D\<close> are the tests of
  Unicode: \<open>\d\<close> matches the Arabic-Indic digits as it matches \<open>0\<close> .. \<open>9\<close>.
\<close>

datatype rx =
    Chr nat
  | Digit
  | NonDigit
  | Bol
  | Eol
  | Seq "rx list"
  | Alt "rx list"
  | Star rx

type_synonym mpos = "nat \<times> ustring"

definition one_char :: "(nat \<Rightarrow> bool) \<Rightarrow> mpos \<Rightarrow> mpos list" where
  "one_char ok p = (case snd p of [] \<Rightarrow> [] | x # xs \<Rightarrow> if ok x then [(Suc (fst p), xs)] else [])"

text \<open>
  Repetition: the body is tried first (greedy), an iteration that consumes nothing is
  not repeated, and the number of iterations is bounded by the length of the input.
\<close>

fun star_iter :: "nat \<Rightarrow> (mpos \<Rightarrow> mpos list) \<Rightarrow> mpos \<Rightarrow> mpos list" where
  "star_iter 0 m p = [p]"
| "star_iter (Suc k) m p =
     concat (map (star_iter k m) (filter (\<lambda>q. fst p < fst q) (m p))) @ [p]"

primrec rx_match :: "rx \<Rightarrow> mpos \<Rightarrow> mpos list" where
  "rx_match (Chr c) = one_char (\<lambda>x. x = c)"
| "rx_match Digit = one_char unicode_decimal"
| "rx_match NonDigit = one_char (\<lambda>x. \<not> unicode_decimal x)"
| "rx_match Bol = (\<lambda>p. if fst p = 0 then [p] else [])"
| "rx_match Eol = (\<lambda>p. if snd p = [] \<or> snd p = [line_feed] then [p] else [])"
| "rx_match (Seq rs) = (\<lambda>p. fold (\<lambda>m ps. concat (map m ps)) (map rx_match rs) [p])"
| "rx_match (Alt rs) = (\<lambda>p. concat (map (\<lambda>m. m p) (map rx_match rs)))"
| "rx_match (Star r) = (\<lambda>p. star_iter (length (snd p)) (rx_match r) p)"

text \<open>A word of the pattern: its characters one after the other.\<close>

definition lit :: "string \<Rightarrow> rx" where
  "lit w = Seq (map Chr (ustr w))"

definition re_match :: "rx \<Rightarrow> ustring \<Rightarrow> bool" where
  "re_match r s = (rx_match r (0, s) \<noteq> [])"

definition check_id_pattern :: rx where
  "check_id_pattern =
     Seq [Bol, Alt [lit ''COMPONENT'', lit ''SAMPLE'', lit ''DATASET''], Chr underscore,
          Star NonDigit, Chr underscore, Digit, Digit, Digit, Digit, Eol]"






text \<open>
  For the proofs: a sequence of patterns accepts at a position when some match of the
  whole sequence starts there; and the part of an ID after the scope word.
\<close>

definition accepts :: "rx list \<Rightarrow> mpos \<Rightarrow> bool" where
  "accepts rs p = (rx_match (Seq rs) p \<noteq> [])"


section \<open>\<open>str.format\<close> with keyword arguments\<close>

text \<open>
  \<open>template.format(**kwargs)\<close> as CPython's string formatter runs it. The template is
  read from left to right: literal text up to the next brace (\<open>{{\<close> and \<open>}}\<close> stand for
  one brace), then a replacement field \<open>{name!conversion:spec}\<close>. The first part of the
  field name, up to \<open>.\<close> or \<open>[\<close>, selects the argument: an empty or numeric name asks
  for a positional argument, and there is none (IndexError); any other name is looked up
  among the keyword arguments (KeyError when absent). A format specification that itself
  contains a field is expanded first, one level deep. What the objects themselves do
  (attribute and index access, \<open>!r\<close>/\<open>!s\<close>/\<open>!a\<close>, \<open>__format__\<close> with a non-empty
  specification, \<open>str\<close>) is the parameter \<open>objproto\<close>; \<open>str\<close> is taken to return.
\<close>

record objproto =
  py_str :: "pyval \<Rightarrow> string"
  py_getfield :: "pyval \<Rightarrow> string \<Rightarrow> exc + pyval"
  py_convert :: "pyval \<Rightarrow> char \<Rightarrow> exc + pyval"
  py_format :: "pyval \<Rightarrow> string \<Rightarrow> exc + string"

type_synonym kwargs = "string \<rightharpoonup> pyval"

text \<open>The apostrophe of the messages.\<close>

definition sq :: string where
  "sq = [CHR 0x27]"

text \<open>
  The literal text before the next field: \<open>scan_literal s []\<close> returns the text, whether
  a field follows, and the rest of the input (after the field's opening brace, or after
  an escaped brace). A brace alone is the ValueError.
\<close>

fun scan_literal :: "string \<Rightarrow> string \<Rightarrow> exc + (string \<times> bool \<times> string)" where
  "scan_literal [] acc = Inr (acc, False, [])"
| "scan_literal (c # cs) acc =
     (if c = CHR ''{'' then
        (case cs of
           [] \<Rightarrow> Inl (ValueError (''Single '' @ sq @ ''{'' @ sq @ '' encountered in format string''))
         | d # ds \<Rightarrow> if d = CHR ''{'' then Inr (acc @ [c], False, ds) else Inr (acc, True, cs))
      else if c = CHR ''}'' then
        (case cs of
           [] \<Rightarrow> Inl (ValueError (''Single '' @ sq @ ''}'' @ sq @ '' encountered in format string''))
         | d # ds \<Rightarrow> if d = CHR ''}'' then Inr (acc @ [c], False, ds)
                    else Inl (ValueError (''Single '' @ sq @ ''}'' @ sq @ '' encountered in format string'')))
      else scan_literal cs (acc @ [c]))"

text \<open>
  A field, read after its opening brace: the name up to \<open>}\<close>, \<open>:\<close> or \<open>!\<close> (inside
  \<open>[...]\<close> these three do not end the name), then the conversion character, then the
  format specification up to the brace that closes the field, counting nested braces.
\<close>

fun scan_name :: "bool \<Rightarrow> string \<Rightarrow> string \<Rightarrow> exc + (string \<times> char \<times> string)" where
  "scan_name in_brackets [] acc =
     Inl (ValueError (''expected '' @ sq @ ''}'' @ sq @ '' before end of string''))"
| "scan_name True (c # cs) acc = scan_name (c \<noteq> CHR '']'') cs (acc @ [c])"
| "scan_name False (c # cs) acc =
     (if c = CHR ''{'' then Inl (ValueError (''unexpected '' @ sq @ ''{'' @ sq @ '' in field name''))
      else if c = CHR ''['' then scan_name True cs (acc @ [c])
      else if c = CHR ''}'' \<or> c = CHR '':'' \<or> c = CHR ''!'' then Inr (acc, c, cs)
      else scan_name False cs (acc @ [c]))"

fun scan_spec :: "nat \<Rightarrow> bool \<Rightarrow> string \<Rightarrow> string \<Rightarrow> exc + (string \<times> bool \<times> string)" where
  "scan_spec open_braces nested [] acc =
     Inl (ValueError (''unmatched '' @ sq @ ''{'' @ sq @ '' in format spec''))"
| "scan_spec open_braces nested (c # cs) acc =
     (if c = CHR ''{'' then scan_spec (Suc open_braces) True cs (acc @ [c])
      else if c = CHR ''}'' then
        (case open_braces of
           0 \<Rightarrow> Inr (acc, nested, cs)
         | Suc k \<Rightarrow> scan_spec k nested cs (acc @ [c]))
      else scan_spec open_braces nested cs (acc @ [c]))"

datatype field = Field (field_name: string) (conversion: "char option") (format_spec: string)
  (format_spec_needs_expanding: bool)

definition parse_spec :: "string \<Rightarrow> char option \<Rightarrow> string \<Rightarrow> exc + (field \<times> string)" where
  "parse_spec name conv s =
     (case scan_spec 0 False s [] of
        Inl e \<Rightarrow> Inl e
      | Inr (spec, nested, rest) \<Rightarrow> Inr (Field name conv spec nested, rest))"

definition parse_field :: "string \<Rightarrow> exc + (field \<times> string)" where
  "parse_field s =
     (case scan_name False s [] of
        Inl e \<Rightarrow> Inl e
      | Inr (name, c, rest) \<Rightarrow>
          if c = CHR ''}'' then Inr (Field name None [] False, rest)
          else if c = CHR ''!'' then
            (case rest of
               [] \<Rightarrow> Inl (ValueError ''end of string while looking for conversion specifier'')
             | conv # r1 \<Rightarrow>
                 (case r1 of
                    [] \<Rightarrow> parse_spec name (Some conv) []
                  | c2 # r2 \<Rightarrow>
                      if c2 = CHR ''}'' then Inr (Field name (Some conv) [] False, r2)
                      else if c2 \<noteq> CHR '':'' then
                        Inl (ValueError (''expected '' @ sq @ '':'' @ sq @ '' after conversion specifier''))
                      else parse_spec name (Some conv) r2))
          else parse_spec name None rest)"

text \<open>
  The object a field names. Python calls \<open>format\<close> here with keyword arguments only, so
  the tuple of positional arguments is empty and an empty or numeric name raises
  IndexError. An empty format specification renders the object with \<open>str\<close>. Templates
  and keyword names are strings of characters below 256, and \<open>is_digit\<close> is the test
  for a decimal digit on these.
\<close>

definition is_digit :: "char \<Rightarrow> bool" where
  "is_digit c = unicode_decimal (code_point c)"

definition not_accessor :: "char \<Rightarrow> bool" where
  "not_accessor c = (c \<noteq> CHR ''.'' \<and> c \<noteq> CHR ''['')"

definition get_field_object :: "objproto \<Rightarrow> kwargs \<Rightarrow> string \<Rightarrow> exc + pyval" where
  "get_field_object P kwargs name =
     (let first = takeWhile not_accessor name; rest = dropWhile not_accessor name in
      if list_all is_digit first then
        Inl (IndexError ''Replacement index out of range for positional args tuple'')
      else
        (case kwargs first of
           None \<Rightarrow> Inl (KeyError first)
         | Some obj \<Rightarrow> if rest = [] then Inr obj else py_getfield P obj rest))"

definition render_field :: "objproto \<Rightarrow> pyval \<Rightarrow> string \<Rightarrow> exc + string" where
  "render_field P obj spec = (if spec = [] then Inr (py_str P obj) else py_format P obj spec)"

text \<open>Every scanner consumes input; this is what makes the formatter terminate.\<close>

lemma scan_literal_not_longer:
  "scan_literal s acc = Inr (literal, markup, rest) \<Longrightarrow> length rest \<le> length s"
  by (induction s acc rule: scan_literal.induct) (auto split: if_splits list.splits)

lemma scan_literal_shorter:
  "scan_literal s acc = Inr (literal, markup, rest) \<Longrightarrow> s \<noteq> [] \<Longrightarrow> length rest < length s"
  by (cases s) (auto split: if_splits list.splits dest: scan_literal_not_longer)

lemma scan_name_shorter:
  "scan_name b s acc = Inr (name, c, rest) \<Longrightarrow> length rest < length s"
  by (induction b s acc rule: scan_name.induct) (auto split: if_splits)

lemma scan_spec_shorter:
  "scan_spec n b s acc = Inr (spec, nested, rest) \<Longrightarrow> length rest < length s"
  by (induction n b s acc rule: scan_spec.induct) (auto split: if_splits nat.splits)

lemma parse_spec_shorter:
  "parse_spec name conv s = Inr (f, rest) \<Longrightarrow> length rest < length s"
  by (auto simp: parse_spec_def split: sum.splits dest: scan_spec_shorter)

lemma parse_field_shorter:
  "parse_field s = Inr (f, rest) \<Longrightarrow> length rest < length s"
  unfolding parse_field_def
  by (auto split: sum.splits if_splits list.splits
      dest!: scan_name_shorter parse_spec_shorter)

text \<open>
  The formatter proper (\<open>build_string\<close> in CPython): text is written as it is read, an
  exception discards it. A nested format specification is built one level down, and
  at depth 0 the formatter gives up; \<open>str.format\<close> starts at depth 2.
\<close>

definition prepend :: "string \<Rightarrow> exc + string \<Rightarrow> exc + string" where
  "prepend s r = (case r of Inl e \<Rightarrow> Inl e | Inr out \<Rightarrow> Inr (s @ out))"

definition output_markup :: "objproto \<Rightarrow> kwargs \<Rightarrow> field \<Rightarrow> exc + string \<Rightarrow> exc + string" where
  "output_markup P kwargs f expanded_spec =
     (case get_field_object P kwargs (field_name f) of
        Inl e \<Rightarrow> Inl e
      | Inr obj \<Rightarrow>
          (case (case conversion f of None \<Rightarrow> Inr obj | Some c \<Rightarrow> py_convert P obj c) of
             Inl e \<Rightarrow> Inl e
           | Inr obj' \<Rightarrow>
               (case expanded_spec of
                  Inl e \<Rightarrow> Inl e
                | Inr spec \<Rightarrow> render_field P obj' spec)))"

function build_string :: "objproto \<Rightarrow> kwargs \<Rightarrow> nat \<Rightarrow> string \<Rightarrow> exc + string" where
  "build_string P kwargs 0 s = Inl (ValueError ''Max string recursion exceeded'')"
| "build_string P kwargs (Suc depth) s =
     (if s = [] then Inr []
      else
        (case scan_literal s [] of
           Inl e \<Rightarrow> Inl e
         | Inr (literal, markup_follows, rest) \<Rightarrow>
             prepend literal
               (if \<not> markup_follows then build_string P kwargs (Suc depth) rest
                else
                  (case parse_field rest of
                     Inl e \<Rightarrow> Inl e
                   | Inr (f, rest') \<Rightarrow>
                       (case output_markup P kwargs f
                               (if format_spec_needs_expanding f
                                then build_string P kwargs depth (format_spec f)
                                else Inr (format_spec f)) of
                          Inl e \<Rightarrow> Inl e
                        | Inr text \<Rightarrow> prepend text (build_string P kwargs (Suc depth) rest'))))))"
  by pat_completeness auto

termination
proof (relation "measures [\<lambda>(P, kwargs, depth, s). depth, \<lambda>(P, kwargs, depth, s). length s]")
qed (auto dest!: scan_literal_shorter parse_field_shorter)

definition str_format :: "objproto \<Rightarrow> string \<Rightarrow> kwargs \<Rightarrow> exc + string" where
  "str_format P template kwargs = build_string P kwargs 2 template"

declare build_string.simps [simp del]

text \<open>
  Templates as the specification speaks of them: literal text and named placeholders.
  \<open>template_text\<close> writes such a template as a format string (braces of the text
  doubled), \<open>plain_key\<close> says that a key is a name without format syntax in it, and
  \<open>fill\<close> is formatting in the specification's words: each placeholder is replaced by
  the \<open>str\<close> of the value its key has, and a key that is absent is the KeyError.
\<close>

datatype segment = Text string | Placeholder string

definition escape_braces :: "string \<Rightarrow> string" where
  "escape_braces s = concat (map (\<lambda>c. if c = CHR ''{'' \<or> c = CHR ''}'' then [c, c] else [c]) s)"

fun template_text :: "segment list \<Rightarrow> string" where
  "template_text [] = []"
| "template_text (Text s # segs) = escape_braces s @ template_text segs"
| "template_text (Placeholder k # segs) = ''{'' @ k @ ''}'' @ template_text segs"

definition plain_key :: "string \<Rightarrow> bool" where
  "plain_key k = (\<not> list_all is_digit k \<and> list_all (\<lambda>c. c \<notin> set ''{}[].!:'') k)"

fun plain_keys :: "segment list \<Rightarrow> bool" where
  "plain_keys [] = True"
| "plain_keys (Text s # segs) = plain_keys segs"
| "plain_keys (Placeholder k # segs) = (plain_key k \<and> plain_keys segs)"

fun fill :: "objproto \<Rightarrow> kwargs \<Rightarrow> segment list \<Rightarrow> exc + string" where
  "fill P kwargs [] = Inr []"
| "fill P kwargs (Text s # segs) =
     (case fill P kwargs segs of Inl e \<Rightarrow> Inl e | Inr out \<Rightarrow> Inr (s @ out))"
| "fill P kwargs (Placeholder k # segs) =
     (case kwargs k of
        None \<Rightarrow> Inl (KeyError k)
      | Some v \<Rightarrow>
          (case fill P kwargs segs of Inl e \<Rightarrow> Inl e | Inr out \<Rightarrow> Inr (py_str P v @ out)))"

text \<open>The keys a template of this kind refers to, in order.\<close>

fun holes :: "segment list \<Rightarrow> string list" where
  "holes [] = []"
| "holes (Text s # segs) = holes segs"
| "holes (Placeholder k # segs) = k # holes segs"

section \<open>Check, Flag and the registry\<close>

text \<open>
  A \<open>Check\<close> holds two objects that others may hold too: the dictionary \<open>flag_desc\<close>
  and the list \<open>flags\<close>. Both are kept in a store and a check holds their addresses
  (positions in the store). \<open>_proto_description\<close> is the field \<open>proto_description\<close>,
  and \<open>id\<close> the field \<open>check_id\<close>, a \<open>str\<close> given by its code points.
  The module assigns to no field of a check once \<open>__post_init__\<close> has returned, so a
  check is a value here and the registry \<open>allChecks\<close> a list of checks.
\<close>

record Check =
  description :: string
  check_id :: ustring
  flag_desc :: nat
  validate_func :: "nat option"
  flags :: nat
  config :: kwargs
  proto_description :: string

record Flag =
  code :: FlagCode
  check :: Check
  message_args :: kwargs
  message :: string

text \<open>
  The state of the process: the class attribute \<open>Check.allChecks\<close>, the dictionaries
  and lists allocated so far, and the checks for which \<open>validate\<close> logged its critical
  message.
\<close>

record state =
  allChecks :: "Check list"
  dict_heap :: "(FlagCode \<rightharpoonup> string) list"
  list_heap :: "Flag list list"
  log_critical :: "Check list"

definition initial_state :: state where
  "initial_state = \<lparr>allChecks = [], dict_heap = [], list_heap = [], log_critical = []\<rparr>"

text \<open>A dictionary display \<open>{...}\<close> and the \<open>list()\<close> of \<open>default_factory\<close> allocate.\<close>

definition new_dict :: "(FlagCode \<rightharpoonup> string) \<Rightarrow> state \<Rightarrow> nat \<times> state" where
  "new_dict d st = (length (dict_heap st), st\<lparr>dict_heap := dict_heap st @ [d]\<rparr>)"

definition new_list :: "state \<Rightarrow> nat \<times> state" where
  "new_list st = (length (list_heap st), st\<lparr>list_heap := list_heap st @ [[]]\<rparr>)"

text \<open>\<open>c.flag_desc[k]\<close> (\<open>None\<close> is the KeyError) and \<open>c.flag_desc[k] = v\<close>.\<close>

definition flag_desc_get :: "Check \<Rightarrow> FlagCode \<Rightarrow> state \<Rightarrow> string option" where
  "flag_desc_get c k st = (dict_heap st ! flag_desc c) k"

definition flag_desc_set :: "Check \<Rightarrow> FlagCode \<Rightarrow> string \<Rightarrow> state \<Rightarrow> state" where
  "flag_desc_set c k v st =
     st\<lparr>dict_heap := (dict_heap st)[flag_desc c := (dict_heap st ! flag_desc c)(k \<mapsto> v)]\<rparr>"

text \<open>\<open>c.flags\<close> and \<open>c.flags.append(f)\<close>.\<close>

definition flags_of :: "Check \<Rightarrow> state \<Rightarrow> Flag list" where
  "flags_of c st = list_heap st ! flags c"

definition flags_append :: "Check \<Rightarrow> Flag \<Rightarrow> state \<Rightarrow> state" where
  "flags_append c f st =
     st\<lparr>list_heap := (list_heap st)[flags c := list_heap st ! flags c @ [f]]\<rparr>"

text \<open>
  A check's addresses are allocated: every object a Python program holds exists. The
  theorems about the contents of \<open>flag_desc\<close> and \<open>flags\<close> assume it.
\<close>

definition allocated :: "Check \<Rightarrow> state \<Rightarrow> bool" where
  "allocated c st = (flag_desc c < length (dict_heap st) \<and> flags c < length (list_heap st))"

definition id_format_message :: string where
  "id_format_message =
     ''Valid Check ID format: SCOPE_WORD_dddd where d is any digit. SCOPE must be either ''
     @ sq @ ''COMPONENT'' @ sq @ '','' @ sq @ ''SAMPLE'' @ sq @ '' or '' @ sq @ ''DATASET'' @ sq"

definition dev_unhandled_template :: string where
  "dev_unhandled_template = ''An unhandled exception occured in {function}: {e}''"

text \<open>The three steps of \<open>Check.__post_init__\<close> that can fail, each on its own.\<close>

definition format_description :: "objproto \<Rightarrow> string \<Rightarrow> kwargs \<Rightarrow> exc + string" where
  "format_description P d cfg = str_format P d cfg"

definition check_id_format :: "ustring \<Rightarrow> exc + unit" where
  "check_id_format i =
     (if re_match check_id_pattern i then Inr () else Inl (AssertionError id_format_message))"

definition check_id_unique :: "ustring \<Rightarrow> state \<Rightarrow> exc + unit" where
  "check_id_unique i st =
     (if i \<notin> set (map check_id (allChecks st)) then Inr ()
      else Inl (AssertionError ''CheckID already used, try another ID''))"

text \<open>
  \<open>Check.__post_init__\<close>, on the field values \<open>__init__\<close> has stored. An exception
  leaves the registry and the dictionary as they were.
\<close>

definition Check_post_init ::
  "objproto \<Rightarrow> string \<Rightarrow> ustring \<Rightarrow> nat \<Rightarrow> nat option \<Rightarrow> nat \<Rightarrow> kwargs \<Rightarrow> state
   \<Rightarrow> (exc + Check) \<times> state" where
  "Check_post_init P d i fd vf fl cfg st =
     (case format_description P d cfg of
        Inl e \<Rightarrow> (Inl e, st)
      | Inr d' \<Rightarrow>
          (case check_id_format i of
             Inl e \<Rightarrow> (Inl e, st)
           | Inr _ \<Rightarrow>
               (case check_id_unique i st of
                  Inl e \<Rightarrow> (Inl e, st)
                | Inr _ \<Rightarrow>
                    (let self = \<lparr>description = d', check_id = i, flag_desc = fd,
                                 validate_func = vf, flags = fl, config = cfg,
                                 proto_description = d\<rparr>
                     in (Inr self,
                         flag_desc_set self DEV_UNHANDLED dev_unhandled_template
                           (st\<lparr>allChecks := allChecks st @ [self]\<rparr>))))))"

text \<open>
  \<open>Check(description, id, flag_desc, validate_func, flags, config)\<close>: the generated
  \<open>__init__\<close> fills a missing \<open>flags\<close> with a new empty list and a missing \<open>config\<close> with
  a new empty dictionary, then runs \<open>__post_init__\<close>.
\<close>

definition init_flags :: "nat option \<Rightarrow> state \<Rightarrow> nat \<times> state" where
  "init_flags fl_arg st = (case fl_arg of Some r \<Rightarrow> (r, st) | None \<Rightarrow> new_list st)"

definition Check_init ::
  "objproto \<Rightarrow> string \<Rightarrow> ustring \<Rightarrow> nat \<Rightarrow> nat option \<Rightarrow> nat option \<Rightarrow> kwargs option \<Rightarrow> state
   \<Rightarrow> (exc + Check) \<times> state" where
  "Check_init P d i fd vf fl_arg cfg_arg st =
     (let (fl, st1) = init_flags fl_arg st;
          cfg = (case cfg_arg of Some c \<Rightarrow> c | None \<Rightarrow> Map.empty)
      in Check_post_init P d i fd vf fl cfg st1)"

definition copy_with_new_config ::
  "objproto \<Rightarrow> Check \<Rightarrow> ustring \<Rightarrow> kwargs \<Rightarrow> state \<Rightarrow> (exc + Check) \<times> state" where
  "copy_with_new_config P self i cfg st =
     Check_init P (proto_description self) i (flag_desc self) (validate_func self) None (Some cfg) st"

text \<open>
  \<open>Flag(code, check, message_args)\<close> with its \<open>__post_init__\<close>. \<open>strict_type_checks\<close>
  is imported from \<open>dp_tools.core.model_commons\<close>, which is not among the sources: it is
  the parameter \<open>stc\<close>, returning the exception it raises, if any.
\<close>

definition Flag_init ::
  "objproto \<Rightarrow> (Flag \<Rightarrow> exc option) \<Rightarrow> FlagCode \<Rightarrow> Check \<Rightarrow> kwargs \<Rightarrow> state
   \<Rightarrow> (exc + Flag) \<times> state" where
  "Flag_init P stc c chk args st =
     (case flag_desc_get chk c st of
        None \<Rightarrow> (Inl (KeyError (member_name c)), st)
      | Some pre_format_msg \<Rightarrow>
          (case str_format P pre_format_msg args of
             Inl e \<Rightarrow> (Inl e, st)
           | Inr msg \<Rightarrow>
               (let self = \<lparr>code = c, check = chk, message_args = args, message = msg\<rparr>
                in (case stc self of
                      Some e \<Rightarrow> (Inl e, st)
                    | None \<Rightarrow> (Inr self, flags_append chk self st)))))"

text \<open>
  What a validation function returns: a \<open>Flag\<close>, or any other value. The functions
  themselves are user code: \<open>funcs f\<close> is the function with index \<open>f\<close>, run on the check,
  the arguments of the call and the state, and returning or raising.
\<close>

datatype retval = RFlag Flag | RVal pyval

type_synonym 'a validate_funcs = "nat \<Rightarrow> Check \<Rightarrow> 'a \<Rightarrow> state \<Rightarrow> (exc + retval) \<times> state"

definition call_validate_func :: "'a validate_funcs \<Rightarrow> Check \<Rightarrow> 'a \<Rightarrow> state \<Rightarrow> (exc + retval) \<times> state" where
  "call_validate_func funcs self args st =
     (case validate_func self of
        None \<Rightarrow> (Inl (TypeError (sq @ ''NoneType'' @ sq @ '' object is not callable'')), st)
      | Some f \<Rightarrow> funcs f self args st)"

definition func_value :: "Check \<Rightarrow> pyval" where
  "func_value self = (case validate_func self of None \<Rightarrow> VNone | Some f \<Rightarrow> VFunc f)"

text \<open>
  \<open>Check.validate\<close>. \<open>allowed\<close> is the value of the module global
  \<open>ALLOWED_DEV_EXCEPTIONS\<close> when the call runs. An exception raised in the handler
  (by the construction of the flag) leaves \<open>validate\<close>.
\<close>

definition validate ::
  "objproto \<Rightarrow> (Flag \<Rightarrow> exc option) \<Rightarrow> string list \<Rightarrow> 'a validate_funcs \<Rightarrow> Check \<Rightarrow> 'a \<Rightarrow> state
   \<Rightarrow> (exc + retval) \<times> state" where
  "validate P stc allowed funcs self args st =
     (case call_validate_func funcs self args st of
        (Inr r, st1) \<Rightarrow> (Inr r, st1)
      | (Inl e, st1) \<Rightarrow>
          if isinstance e allowed then
            (case Flag_init P stc DEV_UNHANDLED self
                    [''function'' \<mapsto> func_value self, ''e'' \<mapsto> VExc e]
                    (st1\<lparr>log_critical := log_critical st1 @ [self]\<rparr>) of
               (Inl e', st2) \<Rightarrow> (Inl e', st2)
             | (Inr flag, st2) \<Rightarrow> (Inr (RFlag flag), st2))
          else (Inl e, st1))"

text \<open>The flag the handler of \<open>validate\<close> constructs for the exception \<open>e\<close>.\<close>

definition dev_unhandled_flag :: "objproto \<Rightarrow> Check \<Rightarrow> exc \<Rightarrow> Flag" where
  "dev_unhandled_flag P self e =
     \<lparr>code = DEV_UNHANDLED, check = self,
      message_args = [''function'' \<mapsto> func_value self, ''e'' \<mapsto> VExc e],
      message = ''An unhandled exception occured in '' @ py_str P (func_value self) @ '': ''
                @ py_str P (VExc e)\<rparr>"

subsection \<open>Operations and the registry\<close>

text \<open>
  The operations of the module, for statements about every state a process can reach:
  constructing a check, copying one, constructing a flag, validating, and allocating a
  dictionary for a \<open>flag_desc\<close>.
\<close>

datatype 'a operation =
    New_Check string ustring nat "nat option" "nat option" "kwargs option"
  | Copy_Check Check ustring kwargs
  | New_Flag FlagCode Check kwargs
  | Call_validate Check 'a
  | New_dict "FlagCode \<rightharpoonup> string"

fun perform ::
  "objproto \<Rightarrow> (Flag \<Rightarrow> exc option) \<Rightarrow> string list \<Rightarrow> 'a validate_funcs \<Rightarrow> 'a operation \<Rightarrow> state
   \<Rightarrow> state" where
  "perform P stc allowed funcs (New_Check d i fd vf fl cfg) st = snd (Check_init P d i fd vf fl cfg st)"
| "perform P stc allowed funcs (Copy_Check c i cfg) st = snd (copy_with_new_config P c i cfg st)"
| "perform P stc allowed funcs (New_Flag c chk args) st = snd (Flag_init P stc c chk args st)"
| "perform P stc allowed funcs (Call_validate c args) st = snd (validate P stc allowed funcs c args st)"
| "perform P stc allowed funcs (New_dict d) st = snd (new_dict d st)"

definition run ::
  "objproto \<Rightarrow> (Flag \<Rightarrow> exc option) \<Rightarrow> string list \<Rightarrow> 'a validate_funcs \<Rightarrow> 'a operation list \<Rightarrow> state
   \<Rightarrow> state" where
  "run P stc allowed funcs ops st = fold (perform P stc allowed funcs) ops st"

definition registered_ids :: "state \<Rightarrow> ustring list" where
  "registered_ids st = map check_id (allChecks st)"

text \<open>
  The validation functions are user code. What is assumed of them: a function removes
  no ID from the registry, and it adds checks only by constructing them, so that it
  leaves no ID twice in a registry that had none twice.
\<close>

definition registry_kept :: "'a validate_funcs \<Rightarrow> bool" where
  "registry_kept funcs =
     (\<forall>f c a st. set (registered_ids st) \<subseteq> set (registered_ids (snd (funcs f c a st)))
        \<and> (distinct (registered_ids st) \<longrightarrow> distinct (registered_ids (snd (funcs f c a st)))))"

definition registry_grows :: "state \<Rightarrow> state \<Rightarrow> bool" where
  "registry_grows st st' =
     (set (registered_ids st) \<subseteq> set (registered_ids st')
      \<and> (distinct (registered_ids st) \<longrightarrow> distinct (registered_ids st')))"

section \<open>VVProtocol\<close>

text \<open>
  \<open>_flags\<close> is a dictionary with the keys \<open>dataset\<close>, \<open>sample\<close> and \<open>component\<close>,
  each bound to a dictionary from entities to lists of flags; the property \<open>flags\<close>
  returns it. The three abstract methods and \<open>expected_dataset_class\<close> are what a
  subclass supplies: a method runs on the protocol object and the state, and returns a
  dictionary or raises. A method may change the three dictionaries; binding \<open>_flags\<close>
  or one of its keys to another dictionary object is not modelled.
\<close>

record ('d, 'e) VVProtocol =
  dataset :: 'd
  flags_store :: "string \<rightharpoonup> ('e \<rightharpoonup> Flag list)"

type_synonym ('d, 'e) world = "('d, 'e) VVProtocol \<times> state"

type_synonym ('d, 'e) vv_method =
  "('d, 'e) world \<Rightarrow> (exc + ('e \<rightharpoonup> Flag list)) \<times> ('d, 'e) world"

record ('d, 'e) vv_class =
  expected_dataset_class :: "'d \<Rightarrow> bool"
  validate_dataset :: "('d, 'e) vv_method"
  validate_samples :: "('d, 'e) vv_method"
  validate_components :: "('d, 'e) vv_method"

definition VVProtocol_init :: "('d, 'e) vv_class \<Rightarrow> 'd \<Rightarrow> exc + ('d, 'e) VVProtocol" where
  "VVProtocol_init cls ds =
     (if expected_dataset_class cls ds then
        Inr \<lparr>dataset = ds,
             flags_store = [''dataset'' \<mapsto> Map.empty, ''sample'' \<mapsto> Map.empty,
                            ''component'' \<mapsto> Map.empty]\<rparr>
      else Inl (AssertionError (''dataset MUST be of type '' @ sq @ ''BulkRNASeqDataset'' @ sq
                                @ '' for this protocol'')))"

definition vv_flags :: "('d, 'e) VVProtocol \<Rightarrow> string \<rightharpoonup> ('e \<rightharpoonup> Flag list)" where
  "vv_flags self = flags_store self"

text \<open>\<open>d.update(other)\<close>: every key of \<open>other\<close> is bound to the value \<open>other\<close> gives it.\<close>

definition dict_update :: "('k \<rightharpoonup> 'v) \<Rightarrow> ('k \<rightharpoonup> 'v) \<Rightarrow> ('k \<rightharpoonup> 'v)" where
  "dict_update d other = d ++ other"

datatype call = Call_validate_dataset | Call_validate_samples | Call_validate_components

text \<open>
  One statement \<open>self._flags[key].update(self.method())\<close>: the dictionary is looked up,
  the method is called (the call is recorded), and the dictionary is updated with what
  the method returned. \<open>store_update\<close> is the update of the dictionary under \<open>key\<close>
  (nothing to see when the method has removed the key meanwhile).
\<close>

definition store_update :: "string \<Rightarrow> ('e \<rightharpoonup> Flag list) \<Rightarrow> ('d, 'e) world \<Rightarrow> ('d, 'e) world" where
  "store_update key returned w =
     (case flags_store (fst w) key of
        None \<Rightarrow> w
      | Some d \<Rightarrow>
          ((fst w)\<lparr>flags_store := (flags_store (fst w))(key \<mapsto> dict_update d returned)\<rparr>, snd w))"

definition update_from ::
  "string \<Rightarrow> ('d, 'e) vv_method \<Rightarrow> call \<Rightarrow> ('d, 'e) world \<times> call list
   \<Rightarrow> (exc + unit) \<times> (('d, 'e) world \<times> call list)" where
  "update_from key m ev wt =
     (case flags_store (fst (fst wt)) key of
        None \<Rightarrow> (Inl (KeyError key), wt)
      | Some _ \<Rightarrow>
          (case m (fst wt) of
             (Inl e, w1) \<Rightarrow> (Inl e, (w1, snd wt @ [ev]))
           | (Inr returned, w1) \<Rightarrow> (Inr (), (store_update key returned w1, snd wt @ [ev]))))"

definition validate_all ::
  "('d, 'e) vv_class \<Rightarrow> ('d, 'e) world \<Rightarrow> (exc + unit) \<times> (('d, 'e) world \<times> call list)" where
  "validate_all cls w =
     (case update_from ''dataset'' (validate_dataset cls) Call_validate_dataset (w, []) of
        (Inl e, r) \<Rightarrow> (Inl e, r)
      | (Inr _, r1) \<Rightarrow>
          (case update_from ''sample'' (validate_samples cls) Call_validate_samples r1 of
             (Inl e, r) \<Rightarrow> (Inl e, r)
           | (Inr _, r2) \<Rightarrow>
               update_from ''component'' (validate_components cls) Call_validate_components r2))"

text \<open>A method that leaves \<open>_flags\<close> as it found it.\<close>

definition store_kept :: "('d, 'e) vv_method \<Rightarrow> bool" where
  "store_kept m = (\<forall>w. flags_store (fst (snd (m w))) = flags_store (fst w))"

section \<open>Examples: the scenarios of the specification\<close>

text \<open>
  Concrete objects for the examples: ordinary objects whose \<open>str\<close> is
  their text, a \<open>strict_type_checks\<close> that accepts every flag, and the validation
  functions of the end-to-end scenarios: function 0 returns a GREEN flag, function 1
  raises \<open>KeyError("field")\<close>, function 2 raises \<open>KeyboardInterrupt\<close>, function 3
  raises \<open>Exception("boom")\<close>.
\<close>

definition plain_objects :: objproto where
  "plain_objects =
     \<lparr>py_str = (\<lambda>v. case v of
                   VNone \<Rightarrow> ''None''
                 | VStr s \<Rightarrow> s
                 | VInt i \<Rightarrow> ''<int>''
                 | VFunc f \<Rightarrow> ''<function>''
                 | VExc e \<Rightarrow> exc_arg e
                 | VObj a \<Rightarrow> ''<object>''),
      py_getfield = (\<lambda>v a. Inl (TypeError ''unsupported'')),
      py_convert = (\<lambda>v c. if c \<in> set ''rsa'' then Inr v
                          else Inl (ValueError ''Unknown conversion specifier'')),
      py_format = (\<lambda>v s. Inl (ValueError ''Invalid format specifier''))\<rparr>"

definition accept_all :: "Flag \<Rightarrow> exc option" where
  "accept_all f = None"

definition scenario_funcs :: "unit validate_funcs" where
  "scenario_funcs f c args st =
     (if f = 0 then
        (case Flag_init plain_objects accept_all GREEN c Map.empty st of
           (Inl e, st') \<Rightarrow> (Inl e, st')
         | (Inr flag, st') \<Rightarrow> (Inr (RFlag flag), st'))
      else if f = 1 then (Inl (KeyError ''field''), st)
      else if f = 2 then (Inl (KeyboardInterrupt []), st)
      else (Inl (Exc [''Exception'', ''BaseException''] ''boom''), st))"

definition scenario_flag_desc :: "FlagCode \<rightharpoonup> string" where
  "scenario_flag_desc = [GREEN \<mapsto> ''ok'', Member ''RED1'' 50 \<mapsto> ''missing {field}'']"

definition scenario_state :: state where
  "scenario_state = snd (new_dict scenario_flag_desc initial_state)"

definition scenario_check :: "nat \<Rightarrow> Check" where
  "scenario_check f =
     \<lparr>description = ''Check present'', check_id = (ustr ''DATASET_METADATA_0001''), flag_desc = 0,
      validate_func = Some f, flags = 0, config = [''x'' \<mapsto> VStr ''present''],
      proto_description = ''Check {x}''\<rparr>"

definition scenario_state' :: "nat \<Rightarrow> state" where
  "scenario_state' f =
     \<lparr>allChecks = [scenario_check f],
      dict_heap = [scenario_flag_desc(DEV_UNHANDLED \<mapsto> dev_unhandled_template)],
      list_heap = [[]], log_critical = []\<rparr>"

definition green_flag :: Flag where
  "green_flag = \<lparr>code = GREEN, check = scenario_check 0, message_args = Map.empty, message = ''ok''\<rparr>"

definition scenario_state'' :: state where
  "scenario_state'' = flags_append (scenario_check 0) green_flag (scenario_state' 0)"

definition scenario_copy :: Check where
  "scenario_copy =
     \<lparr>description = ''Check other'', check_id = (ustr ''SAMPLE_METADATA_0002''), flag_desc = 0,
      validate_func = Some 0, flags = 1, config = [''x'' \<mapsto> VStr ''other''],
      proto_description = ''Check {x}''\<rparr>"

text \<open>
  A protocol for the examples: its dataset method reports a GREEN flag for
  entity 0 when nothing is stored for that entity yet and a DEV_UNHANDLED flag
  otherwise; the other two methods report an empty and a one-entry dictionary.
\<close>

definition red_flag :: Flag where
  "red_flag = dev_unhandled_flag plain_objects (scenario_check 0) (KeyError ''field'')"

definition scenario_dataset_method :: "(unit, nat) vv_method" where
  "scenario_dataset_method w =
     (case flags_store (fst w) ''dataset'' of
        None \<Rightarrow> (Inl (KeyError ''dataset''), w)
      | Some d \<Rightarrow> (case d 0 of
                     None \<Rightarrow> (Inr [0 \<mapsto> [green_flag]], w)
                   | Some _ \<Rightarrow> (Inr [0 \<mapsto> [red_flag]], w)))"

definition scenario_protocol :: "(unit, nat) vv_class" where
  "scenario_protocol =
     \<lparr>expected_dataset_class = (\<lambda>ds. True),
      validate_dataset = scenario_dataset_method,
      validate_samples = (\<lambda>w. (Inr Map.empty, w)),
      validate_components = (\<lambda>w. (Inr [7 \<mapsto> [green_flag]], w))\<rparr>"

definition scenario_vv :: "(unit, nat) VVProtocol" where
  "scenario_vv =
     \<lparr>dataset = (),
      flags_store = [''dataset'' \<mapsto> Map.empty, ''sample'' \<mapsto> Map.empty,
                     ''component'' \<mapsto> Map.empty]\<rparr>"

definition scenario_vv' :: "(unit, nat) VVProtocol" where
  "scenario_vv' =
     \<lparr>dataset = (),
      flags_store = [''dataset'' \<mapsto> [0 \<mapsto> [green_flag]], ''sample'' \<mapsto> Map.empty,
                     ''component'' \<mapsto> [7 \<mapsto> [green_flag]]]\<rparr>"

definition scenario_vv'' :: "(unit, nat) VVProtocol" where
  "scenario_vv'' =
     \<lparr>dataset = (),
      flags_store = [''dataset'' \<mapsto> [0 \<mapsto> [red_flag]], ''sample'' \<mapsto> Map.empty,
                     ''component'' \<mapsto> [7 \<mapsto> [green_flag]]]\<rparr>"

section \<open>Lemmas: FlagCode\<close>

lemma FlagCode_member_map_eval:
  "FlagCode_member_map =
    [(''DEV_HANDLED'', Member ''DEV_HANDLED'' 90), (''DEV_UNHANDLED'', Member ''DEV_UNHANDLED'' 91),
     (''HALT1'', Member ''HALT1'' 80), (''HALT2'', Member ''HALT1'' 80),
     (''HALT3'', Member ''HALT1'' 80), (''HALT4'', Member ''HALT1'' 80),
     (''HALT5'', Member ''HALT1'' 80),
     (''RED1'', Member ''RED1'' 50), (''RED2'', Member ''RED1'' 50),
     (''RED3'', Member ''RED1'' 50), (''RED4'', Member ''RED1'' 50),
     (''RED5'', Member ''RED1'' 50),
     (''YELLOW1'', Member ''YELLOW1'' 30), (''YELLOW2'', Member ''YELLOW1'' 30),
     (''YELLOW3'', Member ''YELLOW1'' 30), (''YELLOW4'', Member ''YELLOW1'' 30),
     (''YELLOW5'', Member ''YELLOW1'' 30),
     (''GREEN'', Member ''GREEN'' 20), (''INFO'', Member ''INFO'' 10)]"
  by (simp add: FlagCode_member_map_def FlagCode_body_def)

lemma FlagCode_attr_DEV_UNHANDLED: "FlagCode_attr ''DEV_UNHANDLED'' = Some DEV_UNHANDLED"
  by (simp add: FlagCode_attr_def FlagCode_member_map_eval DEV_UNHANDLED_def)

lemma FlagCode_attr_GREEN: "FlagCode_attr ''GREEN'' = Some GREEN"
  by (simp add: FlagCode_attr_def FlagCode_member_map_eval GREEN_def)

section \<open>Lemmas: strings and decimal digits\<close>

lemma code_point_eq_iff [simp]: "code_point a = code_point b \<longleftrightarrow> a = b"
  by (simp add: code_point_def)

lemma code_point_less_256: "code_point c < 256"
  unfolding code_point_def by (rule nat_of_char_less_256)

lemma ustr_inject [simp]: "ustr a = ustr b \<longleftrightarrow> a = b"
  unfolding ustr_def by (simp add: inj_map_eq_map inj_on_def)

lemma ustr_append: "ustr (a @ b) = ustr a @ ustr b"
  by (simp add: ustr_def)

lemma length_ustr [simp]: "length (ustr s) = length s"
  by (simp add: ustr_def)

lemma unicode_decimal_below_1632:
  "c < 1632 \<Longrightarrow> unicode_decimal c = (48 \<le> c \<and> c \<le> 57)"
  by (auto simp: unicode_decimal_def decimal_ranges_def)


lemma unicode_decimal_code_point:
  "unicode_decimal (code_point c) = (c \<in> set ''0123456789'')"
proof -
  have lt: "code_point c < 1632" using code_point_less_256 [of c] by linarith
  have "unicode_decimal (code_point c) = (48 \<le> code_point c \<and> code_point c \<le> 57)"
    by (rule unicode_decimal_below_1632 [OF lt])
  also have "\<dots> = (c \<in> set ''0123456789'')"
  proof
    assume "48 \<le> code_point c \<and> code_point c \<le> 57"
    moreover have "\<And>n :: nat. 48 \<le> n \<and> n \<le> 57 \<Longrightarrow> n \<in> {48, 49, 50, 51, 52, 53, 54, 55, 56, 57}"
      by (simp; presburger)
    ultimately have "code_point c \<in> {48, 49, 50, 51, 52, 53, 54, 55, 56, 57}" by blast
    then have "code_point c = code_point CHR ''0'' \<or> code_point c = code_point CHR ''1''
        \<or> code_point c = code_point CHR ''2'' \<or> code_point c = code_point CHR ''3''
        \<or> code_point c = code_point CHR ''4'' \<or> code_point c = code_point CHR ''5''
        \<or> code_point c = code_point CHR ''6'' \<or> code_point c = code_point CHR ''7''
        \<or> code_point c = code_point CHR ''8'' \<or> code_point c = code_point CHR ''9''"
      by (simp add: code_point_def)
    then show "c \<in> set ''0123456789''"
      unfolding code_point_eq_iff by simp
  next
    assume "c \<in> set ''0123456789''"
    then show "48 \<le> code_point c \<and> code_point c \<le> 57" by (auto simp: code_point_def)
  qed
  finally show ?thesis .
qed

lemma is_digit_char [code]: "is_digit c = (c \<in> set ''0123456789'')"
  unfolding is_digit_def by (rule unicode_decimal_code_point)

lemma line_feed_not_decimal: "\<not> unicode_decimal line_feed"
  unfolding line_feed_def by (simp add: unicode_decimal_code_point)

section \<open>Lemmas: The check ID pattern\<close>






lemma accepts_Nil: "accepts [] p"
  by (simp add: accepts_def)

















section \<open>Lemmas: \<open>str.format\<close> with keyword arguments\<close>

lemma prepend_simps [simp]:
  "prepend s (Inl e) = Inl e" "prepend s (Inr out) = Inr (s @ out)"
  by (simp_all add: prepend_def)

lemma prepend_prepend: "prepend a (prepend b r) = prepend (a @ b) r"
  by (cases r) simp_all

lemma scan_literal_acc:
  "scan_literal s acc =
   (case scan_literal s [] of Inl e \<Rightarrow> Inl e | Inr (l, m, r) \<Rightarrow> Inr (acc @ l, m, r))"
proof (induction s arbitrary: acc)
  case Nil
  show ?case by simp
next
  case (Cons c cs)
  show ?case
  proof (cases "c = CHR ''{'' \<or> c = CHR ''}''")
    case True
    then show ?thesis by (cases cs) auto
  next
    case False
    have "scan_literal (c # cs) acc = scan_literal cs (acc @ [c])" using False by simp
    also have "\<dots> = (case scan_literal cs [] of Inl e \<Rightarrow> Inl e | Inr (l, m, r) \<Rightarrow> Inr ((acc @ [c]) @ l, m, r))"
      by (rule Cons.IH)
    finally have L: "scan_literal (c # cs) acc =
      (case scan_literal cs [] of Inl e \<Rightarrow> Inl e | Inr (l, m, r) \<Rightarrow> Inr ((acc @ [c]) @ l, m, r))" .
    have "scan_literal (c # cs) [] = scan_literal cs [c]" using False by simp
    also have "\<dots> = (case scan_literal cs [] of Inl e \<Rightarrow> Inl e | Inr (l, m, r) \<Rightarrow> Inr ([c] @ l, m, r))"
      by (rule Cons.IH)
    finally have R: "scan_literal (c # cs) [] =
      (case scan_literal cs [] of Inl e \<Rightarrow> Inl e | Inr (l, m, r) \<Rightarrow> Inr ([c] @ l, m, r))" .
    show ?thesis
    proof (cases "scan_literal cs []")
      case (Inl e)
      then show ?thesis unfolding L R by simp
    next
      case (Inr x)
      then show ?thesis unfolding L R by (cases x) simp
    qed
  qed
qed

lemma build_string_Nil: "build_string P kwargs (Suc d) [] = Inr []"
  by (simp add: build_string.simps)

lemma build_string_plain_char:
  assumes "c \<noteq> CHR ''{''" "c \<noteq> CHR ''}''"
  shows "build_string P kwargs (Suc d) (c # t) = prepend [c] (build_string P kwargs (Suc d) t)"
proof (cases "t = []")
  case True
  then show ?thesis using assms by (simp add: build_string.simps)
next
  case False
  have "scan_literal (c # t) [] = scan_literal t [c]"
    using assms by simp
  also have "\<dots> =
      (case scan_literal t [] of Inl e \<Rightarrow> Inl e | Inr (l, m, r) \<Rightarrow> Inr ([c] @ l, m, r))"
    by (rule scan_literal_acc)
  finally have sc: "scan_literal (c # t) [] =
      (case scan_literal t [] of Inl e \<Rightarrow> Inl e | Inr (l, m, r) \<Rightarrow> Inr ([c] @ l, m, r))" .
  show ?thesis
  proof (cases "scan_literal t []")
    case (Inl e)
    then show ?thesis using False sc
      by (simp add: build_string.simps(2) [of P kwargs d "c # t"]
          build_string.simps(2) [of P kwargs d t])
  next
    case (Inr x)
    then obtain l m r where x: "scan_literal t [] = Inr (l, m, r)" by (cases x) auto
    have L: "build_string P kwargs (Suc d) (c # t) =
             prepend ([c] @ l) (if \<not> m then build_string P kwargs (Suc d) r
                else
                  (case parse_field r of
                     Inl e \<Rightarrow> Inl e
                   | Inr (f, rest') \<Rightarrow>
                       (case output_markup P kwargs f
                               (if format_spec_needs_expanding f
                                then build_string P kwargs d (format_spec f)
                                else Inr (format_spec f)) of
                          Inl e \<Rightarrow> Inl e
                        | Inr text \<Rightarrow> prepend text (build_string P kwargs (Suc d) rest'))))"
      unfolding build_string.simps(2) [of P kwargs d "c # t"] sc x by simp
    have R: "build_string P kwargs (Suc d) t =
             prepend l (if \<not> m then build_string P kwargs (Suc d) r
                else
                  (case parse_field r of
                     Inl e \<Rightarrow> Inl e
                   | Inr (f, rest') \<Rightarrow>
                       (case output_markup P kwargs f
                               (if format_spec_needs_expanding f
                                then build_string P kwargs d (format_spec f)
                                else Inr (format_spec f)) of
                          Inl e \<Rightarrow> Inl e
                        | Inr text \<Rightarrow> prepend text (build_string P kwargs (Suc d) rest'))))"
      unfolding build_string.simps(2) [of P kwargs d t] x using False by simp
    show ?thesis unfolding L R by (simp only: prepend_prepend)
  qed
qed

lemma build_string_escaped_open:
  "build_string P kwargs (Suc d) (CHR ''{'' # CHR ''{'' # t) =
   prepend ''{'' (build_string P kwargs (Suc d) t)"
  by (simp add: build_string.simps(2) [of P kwargs d "CHR ''{'' # CHR ''{'' # t"] prepend_def)

lemma build_string_escaped_close:
  "build_string P kwargs (Suc d) (CHR ''}'' # CHR ''}'' # t) =
   prepend ''}'' (build_string P kwargs (Suc d) t)"
  by (simp add: build_string.simps(2) [of P kwargs d "CHR ''}'' # CHR ''}'' # t"] prepend_def)

lemma build_string_escape_braces:
  "build_string P kwargs (Suc d) (escape_braces s @ t) =
   prepend s (build_string P kwargs (Suc d) t)"
proof (induction s)
  case Nil
  show ?case by (cases "build_string P kwargs (Suc d) t") (simp_all add: escape_braces_def)
next
  case (Cons c s)
  have IH: "build_string P kwargs (Suc d) (escape_braces s @ t) =
            prepend s (build_string P kwargs (Suc d) t)" by (rule Cons.IH)
  consider "c = CHR ''{''" | "c = CHR ''}''" | "c \<noteq> CHR ''{''" "c \<noteq> CHR ''}''" by blast
  then show ?case
  proof cases
    case 1
    then have "escape_braces (c # s) @ t = CHR ''{'' # CHR ''{'' # (escape_braces s @ t)"
      by (simp add: escape_braces_def)
    then show ?thesis using 1 IH by (simp add: build_string_escaped_open prepend_prepend)
  next
    case 2
    then have "escape_braces (c # s) @ t = CHR ''}'' # CHR ''}'' # (escape_braces s @ t)"
      by (simp add: escape_braces_def)
    then show ?thesis using 2 IH by (simp add: build_string_escaped_close prepend_prepend)
  next
    case 3
    then have "escape_braces (c # s) @ t = c # (escape_braces s @ t)"
      by (simp add: escape_braces_def)
    then show ?thesis using 3 IH by (simp add: build_string_plain_char prepend_prepend)
  qed
qed

lemma scan_name_plain:
  "list_all (\<lambda>c. c \<notin> set ''{}[].!:'') k \<Longrightarrow>
   scan_name False (k @ CHR ''}'' # t) acc = Inr (acc @ k, CHR ''}'', t)"
  by (induction k arbitrary: acc) simp_all

lemma parse_field_plain:
  "list_all (\<lambda>c. c \<notin> set ''{}[].!:'') k \<Longrightarrow>
   parse_field (k @ CHR ''}'' # t) = Inr (Field k None [] False, t)"
  by (simp add: parse_field_def scan_name_plain)

lemma get_field_object_plain:
  assumes "plain_key k"
  shows "get_field_object P kwargs k =
         (case kwargs k of None \<Rightarrow> Inl (KeyError k) | Some v \<Rightarrow> Inr v)"
proof -
  have "list_all not_accessor k"
    using assms by (auto simp: plain_key_def not_accessor_def list_all_iff)
  then have tw: "takeWhile not_accessor k = k" and dw: "dropWhile not_accessor k = []"
    by (simp_all add: list_all_iff)
  have nd: "\<not> list_all is_digit k"
    using assms by (simp add: plain_key_def)
  show ?thesis
    unfolding get_field_object_def Let_def tw dw
    using nd by (simp split: option.splits)
qed

lemma build_string_markup:
  assumes "s \<noteq> []" "scan_literal s [] = Inr (literal, True, rest)"
    and "parse_field rest = Inr (Field name None [] False, rest')"
  shows "build_string P kwargs (Suc d) s =
         (case get_field_object P kwargs name of
            Inl e \<Rightarrow> Inl e
          | Inr obj \<Rightarrow> prepend (literal @ py_str P obj) (build_string P kwargs (Suc d) rest'))"
  unfolding build_string.simps(2) [of P kwargs d s]
  by (cases "get_field_object P kwargs name")
     (simp_all add: assms output_markup_def render_field_def prepend_prepend)

lemma build_string_placeholder:
  assumes "plain_key k"
  shows "build_string P kwargs (Suc d) (CHR ''{'' # k @ CHR ''}'' # t) =
         (case kwargs k of
            None \<Rightarrow> Inl (KeyError k)
          | Some v \<Rightarrow> prepend (py_str P v) (build_string P kwargs (Suc d) t))"
proof -
  from assms have pl: "list_all (\<lambda>c. c \<notin> set ''{}[].!:'') k" and "k \<noteq> []"
    by (auto simp: plain_key_def)
  then obtain c k' where k: "k = c # k'" and c: "c \<noteq> CHR ''{''"
    by (cases k) auto
  have sc: "scan_literal (CHR ''{'' # k @ CHR ''}'' # t) [] = Inr ([], True, k @ CHR ''}'' # t)"
    using k c by simp
  have "build_string P kwargs (Suc d) (CHR ''{'' # k @ CHR ''}'' # t) =
         (case get_field_object P kwargs k of
            Inl e \<Rightarrow> Inl e
          | Inr obj \<Rightarrow> prepend ([] @ py_str P obj) (build_string P kwargs (Suc d) t))"
    by (rule build_string_markup [OF _ sc parse_field_plain [OF pl]]) simp
  then show ?thesis
    by (simp add: get_field_object_plain [OF assms] split: option.splits)
qed

lemma build_string_template:
  "plain_keys segs \<Longrightarrow>
   build_string P kwargs (Suc d) (template_text segs) = fill P kwargs segs"
proof (induction segs)
  case Nil
  show ?case by (simp add: build_string_Nil)
next
  case (Cons seg segs)
  then have IH: "build_string P kwargs (Suc d) (template_text segs) = fill P kwargs segs"
    by (cases seg) simp_all
  show ?case
  proof (cases seg)
    case (Text s)
    then show ?thesis using IH by (simp add: build_string_escape_braces prepend_def)
  next
    case (Placeholder k)
    with Cons.prems have "plain_key k" by simp
    then show ?thesis using Placeholder IH
      by (simp add: build_string_placeholder prepend_def split: option.splits)
  qed
qed

section \<open>Lemmas: construction of a check\<close>

lemma Check_post_init_success:
  "Check_post_init P d i fd vf fl cfg st = (Inr c, st') \<longleftrightarrow>
   (\<exists>d'. format_description P d cfg = Inr d' \<and> check_id_format i = Inr ()
      \<and> check_id_unique i st = Inr ()
      \<and> c = \<lparr>description = d', check_id = i, flag_desc = fd, validate_func = vf, flags = fl,
              config = cfg, proto_description = d\<rparr>
      \<and> st' = flag_desc_set c DEV_UNHANDLED dev_unhandled_template
                (st\<lparr>allChecks := allChecks st @ [c]\<rparr>))"
  unfolding Check_post_init_def
  by (auto simp: Let_def split: sum.splits)

lemma Check_post_init_failure:
  "Check_post_init P d i fd vf fl cfg st = (Inl e, st') \<longleftrightarrow>
   st' = st \<and>
   (format_description P d cfg = Inl e
    \<or> (\<exists>d'. format_description P d cfg = Inr d' \<and> check_id_format i = Inl e)
    \<or> (\<exists>d'. format_description P d cfg = Inr d' \<and> check_id_format i = Inr ()
          \<and> check_id_unique i st = Inl e))"
  unfolding Check_post_init_def
  by (auto simp: Let_def split: sum.splits)

lemma Check_init_unfold:
  "Check_init P d i fd vf fl_arg cfg_arg st =
   Check_post_init P d i fd vf (fst (init_flags fl_arg st))
     (case cfg_arg of Some c \<Rightarrow> c | None \<Rightarrow> Map.empty) (snd (init_flags fl_arg st))"
  by (simp add: Check_init_def Let_def split: prod.splits)

lemma init_flags_frame:
  "allChecks (snd (init_flags fl_arg st)) = allChecks st"
  "dict_heap (snd (init_flags fl_arg st)) = dict_heap st"
  "log_critical (snd (init_flags fl_arg st)) = log_critical st"
  by (simp_all add: init_flags_def new_list_def split: option.splits)

lemma str_format_scenario:
  "str_format plain_objects ''Check {x}'' [''x'' \<mapsto> VStr ''present''] = Inr ''Check present''"
  by code_simp

lemma re_match_scenario: "re_match check_id_pattern (ustr ''DATASET_METADATA_0001'')"
  by (simp add: re_match_def check_id_pattern_def lit_def one_char_def ustr_def
      underscore_def line_feed_def unicode_decimal_code_point)

lemma scenario_Check_init:
  "Check_init plain_objects ''Check {x}'' (ustr ''DATASET_METADATA_0001'') 0 (Some f) None
     (Some [''x'' \<mapsto> VStr ''present'']) scenario_state
   = (Inr (scenario_check f), scenario_state' f)"
  by (simp add: Check_init_def Check_post_init_def format_description_def str_format_scenario
      check_id_format_def re_match_scenario check_id_unique_def scenario_state_def new_dict_def
      init_flags_def new_list_def initial_state_def scenario_check_def scenario_state'_def flag_desc_set_def Let_def)










lemma fill_first_missing:
  "find (\<lambda>k. kwargs k = None) (holes segs) = Some k \<Longrightarrow> fill P kwargs segs = Inl (KeyError k)"
proof (induction segs)
  case Nil
  then show ?case by simp
next
  case (Cons seg segs)
  show ?case
  proof (cases seg)
    case (Text s)
    with Cons show ?thesis by simp
  next
    case (Placeholder h)
    show ?thesis
    proof (cases "kwargs h")
      case None
      with Cons.prems Placeholder show ?thesis by simp
    next
      case (Some v)
      with Cons Placeholder show ?thesis by simp
    qed
  qed
qed

lemma fill_all_present:
  "list_all (\<lambda>k. kwargs k \<noteq> None) (holes segs) \<Longrightarrow> \<exists>out. fill P kwargs segs = Inr out"
proof (induction segs)
  case Nil
  show ?case by simp
next
  case (Cons seg segs)
  show ?case
  proof (cases seg)
    case (Text s)
    with Cons show ?thesis by auto
  next
    case (Placeholder h)
    with Cons show ?thesis by auto
  qed
qed

lemma fill_cong:
  "(\<forall>k \<in> set (holes segs). kwargs' k = kwargs k) \<Longrightarrow> fill P kwargs' segs = fill P kwargs segs"
proof (induction segs)
  case Nil
  show ?case by simp
next
  case (Cons seg segs)
  show ?case
  proof (cases seg)
    case (Text s)
    with Cons show ?thesis by simp
  next
    case (Placeholder h)
    with Cons show ?thesis by (simp split: option.splits)
  qed
qed

lemma str_format_template:
  "plain_keys segs \<Longrightarrow> str_format P (template_text segs) kwargs = fill P kwargs segs"
  by (simp add: str_format_def numeral_2_eq_2 build_string_template)

lemma Check_init_format_failure:
  assumes "format_description P d cfg = Inl e"
  shows "Check_init P d i fd vf fl_arg (Some cfg) st = (Inl e, snd (init_flags fl_arg st))"
  unfolding Check_init_unfold Check_post_init_def using assms by simp

lemma Check_init_description:
  assumes "Check_init P d i fd vf fl_arg (Some cfg) st = (Inr c, st')"
  shows "format_description P d cfg = Inr (description c)"
  using assms unfolding Check_init_unfold Check_post_init_success by auto

lemma Check_init_succeeds:
  assumes "format_description P d cfg = Inr out" "check_id_format i = Inr ()"
    "check_id_unique i st = Inr ()"
  shows "\<exists>c st'. Check_init P d i fd vf fl_arg (Some cfg) st = (Inr c, st')"
proof -
  have "check_id_unique i (snd (init_flags fl_arg st)) = Inr ()"
    using assms(3) by (simp add: check_id_unique_def init_flags_frame)
  then show ?thesis
    unfolding Check_init_unfold Check_post_init_def using assms(1,2) by (simp add: Let_def)
qed

lemma scenario_template:
  "template_text [Text ''Check '', Placeholder ''x''] = ''Check {x}''"
  "plain_keys [Text ''Check '', Placeholder ''x'']"
  "holes [Text ''Check '', Placeholder ''x''] = [''x'']"
  by (simp_all add: escape_braces_def plain_key_def is_digit_char)

section \<open>Lemmas: flags\<close>

lemma Flag_init_success:
  "Flag_init P stc c chk args st = (Inr f, st') \<longleftrightarrow>
   (\<exists>t msg. flag_desc_get chk c st = Some t \<and> str_format P t args = Inr msg
      \<and> f = \<lparr>code = c, check = chk, message_args = args, message = msg\<rparr>
      \<and> stc f = None \<and> st' = flags_append chk f st)"
  unfolding Flag_init_def
  by (auto simp: Let_def split: option.splits sum.splits)

lemma Flag_init_failure:
  "Flag_init P stc c chk args st = (Inl e, st') \<Longrightarrow> st' = st"
  unfolding Flag_init_def
  by (auto simp: Let_def split: option.splits sum.splits)

lemma flags_append_frame:
  "allChecks (flags_append chk f st) = allChecks st"
  "dict_heap (flags_append chk f st) = dict_heap st"
  "log_critical (flags_append chk f st) = log_critical st"
  "length (list_heap (flags_append chk f st)) = length (list_heap st)"
  by (simp_all add: flags_append_def)

lemma flags_of_flags_append:
  "flags chk < length (list_heap st) \<Longrightarrow> flags_of chk (flags_append chk f st) = flags_of chk st @ [f]"
  by (simp add: flags_of_def flags_append_def)

lemma list_heap_flags_append_other:
  "a \<noteq> flags chk \<Longrightarrow> list_heap (flags_append chk f st) ! a = list_heap st ! a"
  by (simp add: flags_append_def)

lemma str_format_ok: "str_format plain_objects ''ok'' Map.empty = Inr ''ok''"
  by code_simp

lemma scenario_allocated: "allocated (scenario_check f) (scenario_state' f)"
  by (simp add: allocated_def scenario_check_def scenario_state'_def)

lemma GREEN_neq_DEV_UNHANDLED: "GREEN \<noteq> DEV_UNHANDLED"
  by (simp add: GREEN_def DEV_UNHANDLED_def)

lemma scenario_flag_desc_get:
  "flag_desc_get (scenario_check f) GREEN (scenario_state' f) = Some ''ok''"
  "flag_desc_get (scenario_check f) DEV_UNHANDLED (scenario_state' f) = Some dev_unhandled_template"
  "flag_desc_get (scenario_check f) (Member ''HALT1'' 80) (scenario_state' f) = None"
  by (simp_all add: flag_desc_get_def scenario_check_def scenario_state'_def scenario_flag_desc_def
      GREEN_def DEV_UNHANDLED_def)

lemma scenario_green_Flag_init:
  "Flag_init plain_objects accept_all GREEN (scenario_check 0) Map.empty (scenario_state' 0)
   = (Inr green_flag, flags_append (scenario_check 0) green_flag (scenario_state' 0))"
  by (simp add: Flag_init_def scenario_flag_desc_get str_format_ok accept_all_def green_flag_def
      Let_def)

lemma scenario_flags_of: "flags_of (scenario_check f) (scenario_state' f) = []"
  by (simp add: flags_of_def scenario_check_def scenario_state'_def)

section \<open>Lemmas: copies\<close>

lemma init_flags_None:
  "init_flags None st = (length (list_heap st), st\<lparr>list_heap := list_heap st @ [[]]\<rparr>)"
  by (simp add: init_flags_def new_list_def)

lemma flag_desc_set_frame:
  "allChecks (flag_desc_set c k v st) = allChecks st"
  "list_heap (flag_desc_set c k v st) = list_heap st"
  "log_critical (flag_desc_set c k v st) = log_critical st"
  "length (dict_heap (flag_desc_set c k v st)) = length (dict_heap st)"
  by (simp_all add: flag_desc_set_def)

lemma copy_with_new_config_success:
  assumes "copy_with_new_config P self i cfg st = (Inr c, st')"
  shows "\<exists>d'. format_description P (proto_description self) cfg = Inr d'
         \<and> c = \<lparr>description = d', check_id = i, flag_desc = flag_desc self,
                 validate_func = validate_func self, flags = length (list_heap st), config = cfg,
                 proto_description = proto_description self\<rparr>
         \<and> st' = flag_desc_set c DEV_UNHANDLED dev_unhandled_template
                   (st\<lparr>list_heap := list_heap st @ [[]], allChecks := allChecks st @ [c]\<rparr>)"
  using assms
  unfolding copy_with_new_config_def Check_init_unfold Check_post_init_success init_flags_None
  by auto

lemma scenario_state''_eval:
  "scenario_state'' =
     \<lparr>allChecks = [scenario_check 0],
      dict_heap = [scenario_flag_desc(DEV_UNHANDLED \<mapsto> dev_unhandled_template)],
      list_heap = [[green_flag]], log_critical = []\<rparr>"
  by (simp add: scenario_state''_def flags_append_def scenario_state'_def scenario_check_def)

lemma str_format_scenario_other:
  "str_format plain_objects ''Check {x}'' [''x'' \<mapsto> VStr ''other''] = Inr ''Check other''"
  by code_simp

lemma re_match_scenario_2: "re_match check_id_pattern (ustr ''SAMPLE_METADATA_0002'')"
  by (simp add: re_match_def check_id_pattern_def lit_def one_char_def ustr_def
      underscore_def line_feed_def unicode_decimal_code_point)

lemma scenario_copy_with_new_config:
  "copy_with_new_config plain_objects (scenario_check 0) (ustr ''SAMPLE_METADATA_0002'')
     [''x'' \<mapsto> VStr ''other''] scenario_state''
   = (Inr scenario_copy,
      \<lparr>allChecks = [scenario_check 0, scenario_copy],
       dict_heap = [scenario_flag_desc(DEV_UNHANDLED \<mapsto> dev_unhandled_template)],
       list_heap = [[green_flag], []], log_critical = []\<rparr>)"
  by (simp add: copy_with_new_config_def Check_init_def Check_post_init_def format_description_def
      str_format_scenario_other check_id_format_def re_match_scenario_2 check_id_unique_def
      scenario_state''_eval init_flags_def new_list_def scenario_check_def scenario_copy_def
      flag_desc_set_def Let_def)

lemma scenario_allocated'': "allocated (scenario_check 0) scenario_state''"
  by (simp add: allocated_def scenario_state''_eval scenario_check_def)

section \<open>Lemmas: \<open>validate\<close>\<close>

lemma dev_unhandled_template_segments:
  "dev_unhandled_template =
     template_text [Text ''An unhandled exception occured in '', Placeholder ''function'',
                    Text '': '', Placeholder ''e'']"
  "plain_keys [Text ''An unhandled exception occured in '', Placeholder ''function'',
               Text '': '', Placeholder ''e'']"
  by (simp_all add: dev_unhandled_template_def escape_braces_def plain_key_def is_digit_char)

lemma str_format_dev_unhandled_template:
  "str_format P dev_unhandled_template [''function'' \<mapsto> f, ''e'' \<mapsto> e]
   = Inr (''An unhandled exception occured in '' @ py_str P f @ '': '' @ py_str P e)"
  unfolding dev_unhandled_template_segments(1)
  by (subst str_format_template [OF dev_unhandled_template_segments(2)]) simp

lemma Flag_init_dev_unhandled:
  assumes "flag_desc_get self DEV_UNHANDLED st = Some dev_unhandled_template"
    and "stc (dev_unhandled_flag P self e) = None"
  shows "Flag_init P stc DEV_UNHANDLED self [''function'' \<mapsto> func_value self, ''e'' \<mapsto> VExc e] st
         = (Inr (dev_unhandled_flag P self e), flags_append self (dev_unhandled_flag P self e) st)"
  using assms
  by (simp add: Flag_init_def str_format_dev_unhandled_template dev_unhandled_flag_def Let_def)

lemma validate_returns:
  "call_validate_func funcs self args st = (Inr r, st1) \<Longrightarrow>
   validate P stc allowed funcs self args st = (Inr r, st1)"
  by (simp add: validate_def)

lemma flag_desc_get_log_critical:
  "flag_desc_get c k (st\<lparr>log_critical := l\<rparr>) = flag_desc_get c k st"
  by (simp add: flag_desc_get_def)

lemma scenario_call_KeyError:
  "call_validate_func scenario_funcs (scenario_check 1) () (scenario_state' 1)
   = (Inl (KeyError ''field''), scenario_state' 1)"
  by (simp add: call_validate_func_def scenario_funcs_def scenario_check_def)

lemma isinstance_KeyError: "isinstance (KeyError k) ALLOWED_DEV_EXCEPTIONS"
  by (simp add: isinstance_def KeyError_def ALLOWED_DEV_EXCEPTIONS_def)

section \<open>Lemmas: the registry\<close>

lemma registry_grows_refl: "registry_grows st st"
  by (simp add: registry_grows_def)

lemma registry_grows_trans:
  "registry_grows a b \<Longrightarrow> registry_grows b c \<Longrightarrow> registry_grows a c"
  by (auto simp: registry_grows_def)

lemma registry_grows_same:
  "allChecks st' = allChecks st \<Longrightarrow> registry_grows st st'"
  by (simp add: registry_grows_def registered_ids_def)

lemma Check_init_registry:
  "registry_grows st (snd (Check_init P d i fd vf fl_arg cfg_arg st))"
proof (cases "Check_init P d i fd vf fl_arg cfg_arg st")
  case (Pair r st')
  show ?thesis
  proof (cases r)
    case (Inl e)
    with Pair have "Check_init P d i fd vf fl_arg cfg_arg st = (Inl e, st')" by simp
    then have "st' = snd (init_flags fl_arg st)"
      unfolding Check_init_unfold Check_post_init_failure by simp
    then have "allChecks st' = allChecks st" by (simp add: init_flags_frame)
    with Pair show ?thesis by (simp add: registry_grows_same)
  next
    case (Inr c)
    with Pair have "Check_init P d i fd vf fl_arg cfg_arg st = (Inr c, st')" by simp
    then have u: "check_id_unique i (snd (init_flags fl_arg st)) = Inr ()"
      and c: "check_id c = i"
      and st': "st' = flag_desc_set c DEV_UNHANDLED dev_unhandled_template
                ((snd (init_flags fl_arg st))\<lparr>allChecks := allChecks (snd (init_flags fl_arg st)) @ [c]\<rparr>)"
      unfolding Check_init_unfold Check_post_init_success by auto
    from u have "i \<notin> set (registered_ids st)"
      by (simp add: check_id_unique_def registered_ids_def init_flags_frame split: if_splits)
    moreover have "registered_ids st' = registered_ids st @ [i]"
      unfolding st' by (simp add: registered_ids_def flag_desc_set_frame init_flags_frame c)
    ultimately show ?thesis using Pair by (auto simp: registry_grows_def)
  qed
qed

lemma Flag_init_allChecks:
  "allChecks (snd (Flag_init P stc c chk args st)) = allChecks st"
proof (cases "Flag_init P stc c chk args st")
  case (Pair r st')
  show ?thesis
  proof (cases r)
    case (Inl e)
    with Pair have "Flag_init P stc c chk args st = (Inl e, st')" by simp
    from Flag_init_failure [OF this] Pair show ?thesis by simp
  next
    case (Inr f)
    with Pair have "Flag_init P stc c chk args st = (Inr f, st')" by simp
    then have "st' = flags_append chk f st" unfolding Flag_init_success by blast
    with Pair show ?thesis by (simp add: flags_append_frame)
  qed
qed

lemma call_validate_func_registry:
  "registry_kept funcs \<Longrightarrow> registry_grows st (snd (call_validate_func funcs self args st))"
  by (cases "validate_func self")
     (simp_all add: call_validate_func_def registry_grows_def registry_kept_def)

lemma validate_registry:
  assumes "registry_kept funcs"
  shows "registry_grows st (snd (validate P stc allowed funcs self args st))"
proof (cases "call_validate_func funcs self args st")
  case (Pair r st1)
  from call_validate_func_registry [OF assms, of st self args] Pair
  have g: "registry_grows st st1" by simp
  show ?thesis
  proof (cases r)
    case (Inr v)
    with Pair g show ?thesis by (simp add: validate_def)
  next
    case (Inl e)
    show ?thesis
    proof (cases "isinstance e allowed")
      case False
      with Pair Inl g show ?thesis by (simp add: validate_def)
    next
      case True
      let ?st = "st1\<lparr>log_critical := log_critical st1 @ [self]\<rparr>"
      let ?r = "Flag_init P stc DEV_UNHANDLED self
                  [''function'' \<mapsto> func_value self, ''e'' \<mapsto> VExc e] ?st"
      have "snd (validate P stc allowed funcs self args st) = snd ?r"
        using Pair Inl True by (simp add: validate_def split: prod.splits sum.splits)
      moreover have "allChecks (snd ?r) = allChecks st1"
        by (simp add: Flag_init_allChecks)
      ultimately have "registry_grows st1 (snd (validate P stc allowed funcs self args st))"
        by (simp add: registry_grows_same)
      with g show ?thesis by (rule registry_grows_trans)
    qed
  qed
qed

lemma perform_registry:
  assumes "registry_kept funcs"
  shows "registry_grows st (perform P stc allowed funcs op st)"
proof (cases op)
  case (New_Check d i fd vf fl cfg)
  then show ?thesis by (simp add: Check_init_registry)
next
  case (Copy_Check c i cfg)
  then show ?thesis by (simp add: copy_with_new_config_def Check_init_registry)
next
  case (New_Flag c chk args)
  then show ?thesis by (simp add: registry_grows_same Flag_init_allChecks)
next
  case (Call_validate c args)
  then show ?thesis by (simp add: validate_registry [OF assms])
next
  case (New_dict d)
  then show ?thesis by (simp add: registry_grows_same new_dict_def)
qed

lemma run_registry:
  assumes "registry_kept funcs"
  shows "registry_grows st (run P stc allowed funcs ops st)"
  unfolding run_def
proof (induction ops arbitrary: st)
  case Nil
  show ?case by (simp add: registry_grows_refl)
next
  case (Cons op ops)
  have "registry_grows st (perform P stc allowed funcs op st)"
    by (rule perform_registry [OF assms])
  moreover have "registry_grows (perform P stc allowed funcs op st)
                   (fold (perform P stc allowed funcs) ops (perform P stc allowed funcs op st))"
    by (rule Cons.IH)
  ultimately show ?case by (simp add: registry_grows_trans)
qed

lemma Check_init_used_id:
  assumes "i \<in> set (registered_ids st)"
  shows "\<exists>e. fst (Check_init P d i fd vf fl_arg cfg_arg st) = Inl e"
    and "format_description P d (case cfg_arg of Some c \<Rightarrow> c | None \<Rightarrow> Map.empty) = Inr out
         \<Longrightarrow> check_id_format i = Inr ()
         \<Longrightarrow> fst (Check_init P d i fd vf fl_arg cfg_arg st)
             = Inl (AssertionError ''CheckID already used, try another ID'')"
proof -
  have u: "check_id_unique i (snd (init_flags fl_arg st))
           = Inl (AssertionError ''CheckID already used, try another ID'')"
    using assms by (simp add: check_id_unique_def registered_ids_def init_flags_frame)
  show "\<exists>e. fst (Check_init P d i fd vf fl_arg cfg_arg st) = Inl e"
    unfolding Check_init_unfold Check_post_init_def using u
    by (simp split: sum.splits)
  show "format_description P d (case cfg_arg of Some c \<Rightarrow> c | None \<Rightarrow> Map.empty) = Inr out
         \<Longrightarrow> check_id_format i = Inr ()
         \<Longrightarrow> fst (Check_init P d i fd vf fl_arg cfg_arg st)
             = Inl (AssertionError ''CheckID already used, try another ID'')"
    unfolding Check_init_unfold Check_post_init_def using u by simp
qed

lemma scenario_funcs_registry_kept: "registry_kept scenario_funcs"
  unfolding registry_kept_def
proof (intro allI)
  fix f c and a :: unit and st
  obtain r st' where r: "Flag_init plain_objects accept_all GREEN c Map.empty st = (r, st')"
    by (cases "Flag_init plain_objects accept_all GREEN c Map.empty st")
  with Flag_init_allChecks [of plain_objects accept_all GREEN c Map.empty st]
  have "allChecks st' = allChecks st" by simp
  then have "allChecks (snd (scenario_funcs f c a st)) = allChecks st"
    using r by (cases r) (simp_all add: scenario_funcs_def)
  then show "set (registered_ids st) \<subseteq> set (registered_ids (snd (scenario_funcs f c a st)))
        \<and> (distinct (registered_ids st) \<longrightarrow> distinct (registered_ids (snd (scenario_funcs f c a st))))"
    by (simp add: registered_ids_def)
qed

section \<open>Lemmas: \<open>validate_all\<close>\<close>

lemma scenario_VVProtocol_init: "VVProtocol_init scenario_protocol () = Inr scenario_vv"
  by (simp add: VVProtocol_init_def scenario_protocol_def scenario_vv_def)

lemma update_from_Inr:
  assumes "update_from key m ev (w, trace) = (Inr u, (w', trace'))"
  shows "\<exists>returned w1. m w = (Inr returned, w1) \<and> w' = store_update key returned w1
           \<and> trace' = trace @ [ev] \<and> flags_store (fst w) key \<noteq> None"
  using assms unfolding update_from_def
  by (auto split: option.splits prod.splits sum.splits)

lemma store_update_lookup:
  "flags_store (fst w) key = Some d \<Longrightarrow>
   flags_store (fst (store_update key returned w)) =
   (flags_store (fst w))(key \<mapsto> dict_update d returned)"
  by (simp add: store_update_def)

lemma validate_all_first_call:
  "validate_all scenario_protocol (scenario_vv, st)
   = (Inr (), ((scenario_vv', st),
               [Call_validate_dataset, Call_validate_samples, Call_validate_components]))"
  by (simp add: validate_all_def update_from_def store_update_def scenario_protocol_def
      scenario_dataset_method_def scenario_vv_def scenario_vv'_def dict_update_def fun_upd_twist)

lemma validate_all_second_call:
  "validate_all scenario_protocol (scenario_vv', st)
   = (Inr (), ((scenario_vv'', st),
               [Call_validate_dataset, Call_validate_samples, Call_validate_components]))"
  by (simp add: validate_all_def update_from_def store_update_def scenario_protocol_def
      scenario_dataset_method_def scenario_vv'_def scenario_vv''_def dict_update_def fun_upd_twist)

lemma validate_all_Inr:
  assumes "validate_all cls w = (Inr u, (w', trace))"
  shows "\<exists>wa ta wb tb.
           update_from ''dataset'' (validate_dataset cls) Call_validate_dataset (w, [])
             = (Inr (), (wa, ta))
         \<and> update_from ''sample'' (validate_samples cls) Call_validate_samples (wa, ta)
             = (Inr (), (wb, tb))
         \<and> update_from ''component'' (validate_components cls) Call_validate_components (wb, tb)
             = (Inr u, (w', trace))"
  using assms unfolding validate_all_def
  by (auto split: prod.splits sum.splits)

lemma update_from_trace:
  "snd (snd (update_from key m ev (w, trace))) = trace
   \<or> snd (snd (update_from key m ev (w, trace))) = trace @ [ev]"
  unfolding update_from_def
  by (auto split: option.splits prod.splits sum.splits)

lemma dict_update_lookup:
  "dict_update d other e = (case other e of None \<Rightarrow> d e | Some v \<Rightarrow> Some v)"
  by (simp add: dict_update_def map_add_def)

lemma validate_all_trace:
  "snd (snd (validate_all cls w))
   \<in> set [[], [Call_validate_dataset], [Call_validate_dataset, Call_validate_samples],
           [Call_validate_dataset, Call_validate_samples, Call_validate_components]]"
proof -
  obtain r1 w1 t1 where 1: "update_from ''dataset'' (validate_dataset cls) Call_validate_dataset (w, [])
                           = (r1, (w1, t1))"
    by (metis surj_pair)
  from update_from_trace [of "''dataset''" "validate_dataset cls" Call_validate_dataset w "[]"] 1
  have t1: "t1 = [] \<or> t1 = [Call_validate_dataset]" by simp
  show ?thesis
  proof (cases r1)
    case (Inl e)
    with 1 t1 show ?thesis by (auto simp: validate_all_def)
  next
    case (Inr u1)
    have t1': "t1 = [Call_validate_dataset]"
      using 1 Inr update_from_Inr [of "''dataset''" "validate_dataset cls" Call_validate_dataset w "[]" u1 w1 t1]
      by auto
    obtain r2 w2 t2 where 2: "update_from ''sample'' (validate_samples cls) Call_validate_samples (w1, t1)
                             = (r2, (w2, t2))"
      by (metis surj_pair)
    from update_from_trace [of "''sample''" "validate_samples cls" Call_validate_samples w1 t1] 2
    have t2: "t2 = t1 \<or> t2 = t1 @ [Call_validate_samples]" by simp
    show ?thesis
    proof (cases r2)
      case (Inl e)
      with 1 \<open>r1 = Inr u1\<close> 2 t1' t2 show ?thesis by (auto simp: validate_all_def)
    next
      case (Inr u2)
      have t2': "t2 = t1 @ [Call_validate_samples]"
        using 2 Inr update_from_Inr [of "''sample''" "validate_samples cls" Call_validate_samples w1 t1 u2 w2 t2]
        by auto
      from update_from_trace [of "''component''" "validate_components cls" Call_validate_components w2 t2]
      have "snd (snd (update_from ''component'' (validate_components cls) Call_validate_components (w2, t2))) = t2
            \<or> snd (snd (update_from ''component'' (validate_components cls) Call_validate_components (w2, t2)))
               = t2 @ [Call_validate_components]" .
      with 1 \<open>r1 = Inr u1\<close> 2 Inr t1' t2' show ?thesis by (auto simp: validate_all_def)
    qed
  qed
qed

lemma scenario_protocol_store_kept:
  "store_kept (validate_dataset scenario_protocol)"
  "store_kept (validate_samples scenario_protocol)"
  "store_kept (validate_components scenario_protocol)"
  by (simp_all add: store_kept_def scenario_protocol_def scenario_dataset_method_def
      split: option.splits)

section \<open>Lemmas: further keyword arguments\<close>

text \<open>
  For any template whatever: keyword arguments that are not needed do no harm. A
  template that formats against \<open>kwargs\<close> formats to the same text against every
  extension of \<open>kwargs\<close>.
\<close>

lemma prepend_Inr: "prepend a r = Inr out \<longleftrightarrow> (\<exists>o'. r = Inr o' \<and> out = a @ o')"
  by (cases r) auto

lemma get_field_object_mono:
  assumes "kwargs \<subseteq>\<^sub>m kwargs'" "get_field_object P kwargs name = Inr obj"
  shows "get_field_object P kwargs' name = Inr obj"
proof -
  let ?first = "takeWhile not_accessor name"
  from assms(2) have nd: "\<not> list_all is_digit ?first"
    by (auto simp: get_field_object_def Let_def split: if_splits)
  with assms(2) obtain v where v: "kwargs ?first = Some v"
    by (auto simp: get_field_object_def Let_def split: option.splits)
  with assms(1) have v': "kwargs' ?first = Some v"
    by (auto simp: map_le_def dom_def)
  from assms(2) nd v v' show ?thesis
    by (simp add: get_field_object_def Let_def)
qed

lemma output_markup_mono:
  assumes "kwargs \<subseteq>\<^sub>m kwargs'" "output_markup P kwargs f (Inr spec) = Inr rendered"
  shows "output_markup P kwargs' f (Inr spec) = Inr rendered"
proof -
  from assms(2) obtain obj where obj: "get_field_object P kwargs (field_name f) = Inr obj"
    by (auto simp: output_markup_def split: sum.splits)
  from get_field_object_mono [OF assms(1) obj] obj assms(2) show ?thesis
    by (simp add: output_markup_def)
qed

lemma output_markup_Inr:
  "output_markup P kwargs f x = Inr text \<Longrightarrow> \<exists>spec. x = Inr spec"
  by (auto simp: output_markup_def split: sum.splits)

lemma build_string_mono:
  "kwargs \<subseteq>\<^sub>m kwargs' \<Longrightarrow> build_string P kwargs d s = Inr out
   \<Longrightarrow> build_string P kwargs' d s = Inr out"
proof (induction P kwargs d s arbitrary: out rule: build_string.induct)
  case (1 P kwargs s)
  then show ?case by (simp add: build_string.simps)
next
  case (2 P kwargs depth s)
  show ?case
  proof (cases "s = []")
    case True
    with "2.prems" show ?thesis by (simp add: build_string.simps)
  next
    case False
    with "2.prems"(2) obtain literal markup rest where
      sc: "scan_literal s [] = Inr (literal, markup, rest)"
      by (auto simp: build_string.simps(2) [of P kwargs depth s] split: sum.splits)
    show ?thesis
    proof (cases markup)
      case False
      with \<open>s \<noteq> []\<close> sc "2.prems"(2) obtain o' where
        o': "build_string P kwargs (Suc depth) rest = Inr o'" and out: "out = literal @ o'"
        by (auto simp: build_string.simps(2) [of P kwargs depth s] prepend_Inr)
      from "2.IH"(1) [OF \<open>s \<noteq> []\<close> sc refl refl _ "2.prems"(1) o'] False
      have "build_string P kwargs' (Suc depth) rest = Inr o'" by simp
      with \<open>s \<noteq> []\<close> sc False out show ?thesis
        by (simp add: build_string.simps(2) [of P kwargs' depth s])
    next
      case True
      with \<open>s \<noteq> []\<close> sc "2.prems"(2) obtain f rest' where
        pf: "parse_field rest = Inr (f, rest')"
        by (auto simp: build_string.simps(2) [of P kwargs depth s] prepend_Inr split: sum.splits)
      let ?x = "if format_spec_needs_expanding f
                then build_string P kwargs depth (format_spec f) else Inr (format_spec f)"
      let ?x' = "if format_spec_needs_expanding f
                then build_string P kwargs' depth (format_spec f) else Inr (format_spec f)"
      from \<open>s \<noteq> []\<close> sc True pf "2.prems"(2) obtain rendered o' where
        om: "output_markup P kwargs f ?x = Inr rendered"
        and o': "build_string P kwargs (Suc depth) rest' = Inr o'"
        and out: "out = literal @ rendered @ o'"
        by (auto simp: build_string.simps(2) [of P kwargs depth s] prepend_Inr split: sum.splits)
      from output_markup_Inr [OF om] obtain spec where x: "?x = Inr spec" by blast
      have x': "?x' = Inr spec"
      proof (cases "format_spec_needs_expanding f")
        case False
        with x show ?thesis by simp
      next
        case ne: True
        with x have "build_string P kwargs depth (format_spec f) = Inr spec" by simp
        from "2.IH"(2) [OF \<open>s \<noteq> []\<close> sc refl refl _ pf refl ne "2.prems"(1) this] True
        show ?thesis using ne by simp
      qed
      from om x have "output_markup P kwargs f (Inr spec) = Inr rendered" by simp
      from output_markup_mono [OF "2.prems"(1) this]
      have om': "output_markup P kwargs' f ?x' = Inr rendered" using x' by simp
      from "2.IH"(3) [OF \<open>s \<noteq> []\<close> sc refl refl _ pf refl _ "2.prems"(1) o'] True om
      have "build_string P kwargs' (Suc depth) rest' = Inr o'" by simp
      with \<open>s \<noteq> []\<close> sc True pf om' out show ?thesis
        by (simp add: build_string.simps(2) [of P kwargs' depth s])
    qed
  qed
qed

lemma format_description_mono:
  "cfg \<subseteq>\<^sub>m cfg' \<Longrightarrow> format_description P d cfg = Inr out
   \<Longrightarrow> format_description P d cfg' = Inr out"
  unfolding format_description_def str_format_def by (rule build_string_mono)

section \<open>Claims\<close>

text \<open>
  C1, as stated: an exception that is not in \<open>ALLOWED_DEV_EXCEPTIONS\<close> is turned into a
  DEV_UNHANDLED flag. It is not: with the module's own value of the constant, a
  validation function that raises \<open>KeyboardInterrupt\<close> (not an \<open>Exception\<close>) makes
  \<open>validate\<close> raise it.
\<close>

theorem validate_propagates_KeyboardInterrupt:
  "\<not> isinstance (KeyboardInterrupt []) ALLOWED_DEV_EXCEPTIONS
   \<and> call_validate_func scenario_funcs (scenario_check 2) () (scenario_state' 2)
       = (Inl (KeyboardInterrupt []), scenario_state' 2)
   \<and> validate plain_objects accept_all ALLOWED_DEV_EXCEPTIONS scenario_funcs (scenario_check 2) ()
        (scenario_state' 2) = (Inl (KeyboardInterrupt []), scenario_state' 2)"
  by (simp add: validate_def call_validate_func_def scenario_funcs_def scenario_check_def
      isinstance_def KeyboardInterrupt_def ALLOWED_DEV_EXCEPTIONS_def)

text \<open>
  C1, amended: when the validation function raises an exception that is an instance of
  a class in \<open>ALLOWED_DEV_EXCEPTIONS\<close> (\<open>Exception\<close> unless the constant is patched),
  the check's \<open>flag_desc\<close> still holds the DEV_UNHANDLED template written at
  construction and \<open>strict_type_checks\<close> accepts the flag, \<open>validate\<close> does not raise:
  it logs the critical message and returns a flag with code DEV_UNHANDLED whose
  \<open>message_args\<close> are the function and the exception and whose message names both; the
  flag is appended to the check's \<open>flags\<close>.
\<close>

theorem validate_converts_allowed_exception:
  assumes "call_validate_func funcs self args st = (Inl e, st1)"
    and "isinstance e allowed"
    and "flag_desc_get self DEV_UNHANDLED st1 = Some dev_unhandled_template"
    and "stc (dev_unhandled_flag P self e) = None"
    and "allocated self st1"
  shows "\<exists>flag st2. validate P stc allowed funcs self args st = (Inr (RFlag flag), st2)
           \<and> code flag = DEV_UNHANDLED \<and> check flag = self
           \<and> message_args flag = [''function'' \<mapsto> func_value self, ''e'' \<mapsto> VExc e]
           \<and> message flag = ''An unhandled exception occured in '' @ py_str P (func_value self)
                              @ '': '' @ py_str P (VExc e)
           \<and> flags_of self st2 = flags_of self st1 @ [flag]
           \<and> log_critical st2 = log_critical st1 @ [self]
           \<and> allChecks st2 = allChecks st1 \<and> dict_heap st2 = dict_heap st1"
proof -
  let ?st = "st1\<lparr>log_critical := log_critical st1 @ [self]\<rparr>"
  let ?flag = "dev_unhandled_flag P self e"
  have "flag_desc_get self DEV_UNHANDLED ?st = Some dev_unhandled_template"
    using assms(3) by (simp add: flag_desc_get_log_critical)
  from Flag_init_dev_unhandled [where stc = stc, OF this assms(4)]
  have fi: "Flag_init P stc DEV_UNHANDLED self [''function'' \<mapsto> func_value self, ''e'' \<mapsto> VExc e] ?st
            = (Inr ?flag, flags_append self ?flag ?st)" .
  have v: "validate P stc allowed funcs self args st = (Inr (RFlag ?flag), flags_append self ?flag ?st)"
    using assms(1,2) fi by (simp add: validate_def)
  have fl: "flags self < length (list_heap ?st)" using assms(5) by (simp add: allocated_def)
  have "flags_of self (flags_append self ?flag ?st) = flags_of self ?st @ [?flag]"
    by (rule flags_of_flags_append [OF fl])
  then have app: "flags_of self (flags_append self ?flag ?st) = flags_of self st1 @ [?flag]"
    by (simp add: flags_of_def)
  have "code ?flag = DEV_UNHANDLED \<and> check ?flag = self
        \<and> message_args ?flag = [''function'' \<mapsto> func_value self, ''e'' \<mapsto> VExc e]
        \<and> message ?flag = ''An unhandled exception occured in '' @ py_str P (func_value self)
                              @ '': '' @ py_str P (VExc e)"
    by (simp add: dev_unhandled_flag_def)
  moreover have "log_critical (flags_append self ?flag ?st) = log_critical st1 @ [self]"
    "allChecks (flags_append self ?flag ?st) = allChecks st1"
    "dict_heap (flags_append self ?flag ?st) = dict_heap st1"
    by (simp_all add: flags_append_frame)
  ultimately show ?thesis using v app by blast
qed

theorem validate_converts_allowed_exception_witness:
  "call_validate_func scenario_funcs (scenario_check 1) () (scenario_state' 1)
     = (Inl (KeyError ''field''), scenario_state' 1)
   \<and> isinstance (KeyError ''field'') ALLOWED_DEV_EXCEPTIONS
   \<and> flag_desc_get (scenario_check 1) DEV_UNHANDLED (scenario_state' 1) = Some dev_unhandled_template
   \<and> allocated (scenario_check 1) (scenario_state' 1)
   \<and> (\<exists>flag st2. validate plain_objects accept_all ALLOWED_DEV_EXCEPTIONS scenario_funcs
                    (scenario_check 1) () (scenario_state' 1) = (Inr (RFlag flag), st2)
          \<and> code flag = DEV_UNHANDLED
          \<and> message flag = ''An unhandled exception occured in <function>: field''
          \<and> flags_of (scenario_check 1) st2 = [flag])"
proof -
  have stc0: "accept_all (dev_unhandled_flag plain_objects (scenario_check 1) (KeyError ''field''))
              = None"
    by (simp add: accept_all_def)
  from validate_converts_allowed_exception [where stc = accept_all and P = plain_objects,
      OF scenario_call_KeyError isinstance_KeyError scenario_flag_desc_get(2) stc0
         scenario_allocated]
  obtain flag st2 where v: "validate plain_objects accept_all ALLOWED_DEV_EXCEPTIONS scenario_funcs
                    (scenario_check 1) () (scenario_state' 1) = (Inr (RFlag flag), st2)"
    and c: "code flag = DEV_UNHANDLED"
    and m: "message flag = ''An unhandled exception occured in ''
              @ py_str plain_objects (func_value (scenario_check 1)) @ '': ''
              @ py_str plain_objects (VExc (KeyError ''field''))"
    and f: "flags_of (scenario_check 1) st2 = flags_of (scenario_check 1) (scenario_state' 1) @ [flag]"
    by blast
  have m': "message flag = ''An unhandled exception occured in <function>: field''"
    unfolding m by (simp add: plain_objects_def func_value_def scenario_check_def KeyError_def)
  have f': "flags_of (scenario_check 1) st2 = [flag]"
    unfolding f by (simp add: scenario_flags_of)
  from v c m' f' scenario_call_KeyError isinstance_KeyError scenario_flag_desc_get(2) [of 1]
    scenario_allocated [of 1]
  show ?thesis by blast
qed

text \<open>
  C2, as stated: an exception that is a member of \<open>ALLOWED_DEV_EXCEPTIONS\<close> leaves
  \<open>validate\<close>. It does not: \<open>Exception\<close> is the member of the constant, and a validation
  function that raises \<open>Exception("boom")\<close> makes \<open>validate\<close> return a DEV_UNHANDLED
  flag.
\<close>

theorem validate_catches_Exception:
  "hd (exc_mro (Exc [''Exception'', ''BaseException''] ''boom'')) \<in> set ALLOWED_DEV_EXCEPTIONS
   \<and> call_validate_func scenario_funcs (scenario_check 3) () (scenario_state' 3)
       = (Inl (Exc [''Exception'', ''BaseException''] ''boom''), scenario_state' 3)
   \<and> fst (validate plain_objects accept_all ALLOWED_DEV_EXCEPTIONS scenario_funcs
            (scenario_check 3) () (scenario_state' 3))
       = Inr (RFlag (dev_unhandled_flag plain_objects (scenario_check 3)
                       (Exc [''Exception'', ''BaseException''] ''boom'')))"
proof -
  have c: "call_validate_func scenario_funcs (scenario_check 3) () (scenario_state' 3)
       = (Inl (Exc [''Exception'', ''BaseException''] ''boom''), scenario_state' 3)"
    by (simp add: call_validate_func_def scenario_funcs_def scenario_check_def)
  have i: "isinstance (Exc [''Exception'', ''BaseException''] ''boom'') ALLOWED_DEV_EXCEPTIONS"
    by (simp add: isinstance_def ALLOWED_DEV_EXCEPTIONS_def)
  have "flag_desc_get (scenario_check 3) DEV_UNHANDLED
          ((scenario_state' 3)\<lparr>log_critical := log_critical (scenario_state' 3) @ [scenario_check 3]\<rparr>)
        = Some dev_unhandled_template"
    by (simp add: flag_desc_get_log_critical scenario_flag_desc_get)
  from Flag_init_dev_unhandled [where stc = accept_all and P = plain_objects, OF this]
  show ?thesis
    using c i by (simp add: validate_def accept_all_def ALLOWED_DEV_EXCEPTIONS_def)
qed

text \<open>
  C2, amended: when the validation function raises an exception that is not an
  instance of any class in \<open>ALLOWED_DEV_EXCEPTIONS\<close>, \<open>validate\<close> raises that exception:
  no flag is made and nothing is logged.
\<close>

theorem validate_propagates_other_exception:
  assumes "call_validate_func funcs self args st = (Inl e, st1)"
    and "\<not> isinstance e allowed"
  shows "validate P stc allowed funcs self args st = (Inl e, st1)"
  using assms by (simp add: validate_def)

theorem validate_propagates_other_exception_witness:
  "call_validate_func scenario_funcs (scenario_check 1) () (scenario_state' 1)
     = (Inl (KeyError ''field''), scenario_state' 1)
   \<and> \<not> isinstance (KeyError ''field'') []
   \<and> validate plain_objects accept_all [] scenario_funcs (scenario_check 1) () (scenario_state' 1)
       = (Inl (KeyError ''field''), scenario_state' 1)"
proof -
  have n: "\<not> isinstance (KeyError ''field'') []" by (simp add: isinstance_def)
  from validate_propagates_other_exception [OF scenario_call_KeyError n, of plain_objects accept_all]
    scenario_call_KeyError n
  show ?thesis by blast
qed

text \<open>
  C3, as stated: for an entity already present in an internal mapping the new flags are
  merged with the stored ones, so a second call of \<open>validate_all\<close> drops no flag the
  first call recorded. It does: the first call records a GREEN flag for entity 0, the
  second call's dataset method returns another flag for that entity, and afterwards the
  entity's list holds that flag only.
\<close>

theorem validate_all_second_call_replaces:
  "validate_all scenario_protocol (scenario_vv, scenario_state'')
     = (Inr (), ((scenario_vv', scenario_state''),
                 [Call_validate_dataset, Call_validate_samples, Call_validate_components]))
   \<and> vv_flags scenario_vv' ''dataset'' = Some [0 \<mapsto> [green_flag]]
   \<and> validate_all scenario_protocol (scenario_vv', scenario_state'')
     = (Inr (), ((scenario_vv'', scenario_state''),
                 [Call_validate_dataset, Call_validate_samples, Call_validate_components]))
   \<and> vv_flags scenario_vv'' ''dataset'' = Some [0 \<mapsto> [red_flag]]
   \<and> green_flag \<notin> set [red_flag]"
proof -
  have "code green_flag \<noteq> code red_flag"
    by (simp add: green_flag_def red_flag_def dev_unhandled_flag_def GREEN_neq_DEV_UNHANDLED)
  then have "green_flag \<noteq> red_flag" by auto
  then have n: "green_flag \<notin> set [red_flag]" by simp
  have a: "vv_flags scenario_vv' ''dataset'' = Some [0 \<mapsto> [green_flag]]"
    by (simp add: vv_flags_def scenario_vv'_def)
  have b: "vv_flags scenario_vv'' ''dataset'' = Some [0 \<mapsto> [red_flag]]"
    by (simp add: vv_flags_def scenario_vv''_def)
  from validate_all_first_call [of scenario_state''] a
    validate_all_second_call [of scenario_state''] b n
  show ?thesis by (intro conjI)
qed

text \<open>
  C3, amended: \<open>validate_all\<close> calls \<open>validate_dataset\<close>, \<open>validate_samples\<close> and
  \<open>validate_components\<close> in that order, each after the update for the one before; an
  exception of one of them ends the call before the next is called. Each returned mapping is put into the internal
  mapping of its key with \<open>dict.update\<close>: an entity of the returned mapping gets the
  returned list, which replaces the list stored for it before, and every other entity
  keeps its list. When the three methods leave \<open>_flags\<close> alone, \<open>flags\<close> afterwards is
  the old \<open>_flags\<close> with \<open>dataset\<close>, \<open>sample\<close> and \<open>component\<close> updated in this way, so
  it contains the three returned mappings.
\<close>

theorem validate_all_updates:
  assumes "store_kept (validate_dataset cls)" "store_kept (validate_samples cls)"
    "store_kept (validate_components cls)"
  shows "snd (snd (validate_all cls w))
           \<in> set [[], [Call_validate_dataset], [Call_validate_dataset, Call_validate_samples],
                   [Call_validate_dataset, Call_validate_samples, Call_validate_components]]
       \<and> (\<forall>e w1. flags_store (fst w) ''dataset'' \<noteq> None \<and> validate_dataset cls w = (Inl e, w1) \<longrightarrow>
            validate_all cls w = (Inl e, (w1, [Call_validate_dataset])))
       \<and> (\<forall>r1 w1 e w2. flags_store (fst w) ''dataset'' \<noteq> None
              \<and> validate_dataset cls w = (Inr r1, w1)
              \<and> flags_store (fst (store_update ''dataset'' r1 w1)) ''sample'' \<noteq> None
              \<and> validate_samples cls (store_update ''dataset'' r1 w1) = (Inl e, w2) \<longrightarrow>
            validate_all cls w = (Inl e, (w2, [Call_validate_dataset, Call_validate_samples])))
       \<and> (\<forall>u w' trace. validate_all cls w = (Inr u, (w', trace)) \<longrightarrow>
            trace = [Call_validate_dataset, Call_validate_samples, Call_validate_components]
            \<and> (\<exists>r1 r2 r3 w1 w2 w3 D S C.
                  validate_dataset cls w = (Inr r1, w1)
                \<and> validate_samples cls (store_update ''dataset'' r1 w1) = (Inr r2, w2)
                \<and> validate_components cls (store_update ''sample'' r2 w2) = (Inr r3, w3)
                \<and> w' = store_update ''component'' r3 w3
                \<and> flags_store (fst w) ''dataset'' = Some D
                \<and> flags_store (fst w) ''sample'' = Some S
                \<and> flags_store (fst w) ''component'' = Some C
                \<and> vv_flags (fst w') =
                    (flags_store (fst w))(''dataset'' \<mapsto> dict_update D r1,
                       ''sample'' \<mapsto> dict_update S r2, ''component'' \<mapsto> dict_update C r3)
                \<and> (\<forall>e. dict_update D r1 e = (case r1 e of None \<Rightarrow> D e | Some fl \<Rightarrow> Some fl))
                \<and> (\<forall>e. dict_update S r2 e = (case r2 e of None \<Rightarrow> S e | Some fl \<Rightarrow> Some fl))
                \<and> (\<forall>e. dict_update C r3 e = (case r3 e of None \<Rightarrow> C e | Some fl \<Rightarrow> Some fl))))"
proof (intro conjI allI impI)
  show "snd (snd (validate_all cls w))
           \<in> set [[], [Call_validate_dataset], [Call_validate_dataset, Call_validate_samples],
                   [Call_validate_dataset, Call_validate_samples, Call_validate_components]]"
    by (rule validate_all_trace)
next
  fix e w1
  assume "flags_store (fst w) ''dataset'' \<noteq> None \<and> validate_dataset cls w = (Inl e, w1)"
  then show "validate_all cls w = (Inl e, (w1, [Call_validate_dataset]))"
    by (auto simp: validate_all_def update_from_def)
next
  fix r1 w1 e w2
  assume "flags_store (fst w) ''dataset'' \<noteq> None
              \<and> validate_dataset cls w = (Inr r1, w1)
              \<and> flags_store (fst (store_update ''dataset'' r1 w1)) ''sample'' \<noteq> None
              \<and> validate_samples cls (store_update ''dataset'' r1 w1) = (Inl e, w2)"
  then show "validate_all cls w = (Inl e, (w2, [Call_validate_dataset, Call_validate_samples]))"
    by (auto simp: validate_all_def update_from_def)
next
  fix u w' trace
  assume ok: "validate_all cls w = (Inr u, (w', trace))"
  from validate_all_Inr [OF ok] obtain wa ta wb tb where
    a: "update_from ''dataset'' (validate_dataset cls) Call_validate_dataset (w, []) = (Inr (), (wa, ta))"
    and b: "update_from ''sample'' (validate_samples cls) Call_validate_samples (wa, ta) = (Inr (), (wb, tb))"
    and c: "update_from ''component'' (validate_components cls) Call_validate_components (wb, tb)
            = (Inr u, (w', trace))"
    by blast
  from update_from_Inr [OF a] obtain r1 w1 where
    m1: "validate_dataset cls w = (Inr r1, w1)" and wa: "wa = store_update ''dataset'' r1 w1"
    and ta: "ta = [Call_validate_dataset]" and k1: "flags_store (fst w) ''dataset'' \<noteq> None"
    by auto
  from update_from_Inr [OF b] obtain r2 w2 where
    m2: "validate_samples cls wa = (Inr r2, w2)" and wb: "wb = store_update ''sample'' r2 w2"
    and tb: "tb = ta @ [Call_validate_samples]" and k2: "flags_store (fst wa) ''sample'' \<noteq> None"
    by auto
  from update_from_Inr [OF c] obtain r3 w3 where
    m3: "validate_components cls wb = (Inr r3, w3)" and w': "w' = store_update ''component'' r3 w3"
    and tr: "trace = tb @ [Call_validate_components]"
    and k3: "flags_store (fst wb) ''component'' \<noteq> None"
    by auto
  show "trace = [Call_validate_dataset, Call_validate_samples, Call_validate_components]"
    by (simp add: tr tb ta)
  from k1 obtain D where D: "flags_store (fst w) ''dataset'' = Some D" by auto
  have s1: "flags_store (fst w1) = flags_store (fst w)"
    using assms(1) m1 unfolding store_kept_def by (metis snd_conv)
  have sa: "flags_store (fst wa) = (flags_store (fst w))(''dataset'' \<mapsto> dict_update D r1)"
    unfolding wa using store_update_lookup [of w1 "''dataset''" D r1] D s1 by simp
  from k2 obtain S where S': "flags_store (fst wa) ''sample'' = Some S" by auto
  then have S: "flags_store (fst w) ''sample'' = Some S" unfolding sa by simp
  have s2: "flags_store (fst w2) = flags_store (fst wa)"
    using assms(2) m2 unfolding store_kept_def by (metis snd_conv)
  have sb: "flags_store (fst wb) = (flags_store (fst wa))(''sample'' \<mapsto> dict_update S r2)"
    unfolding wb using store_update_lookup [of w2 "''sample''" S r2] S' s2 by simp
  from k3 obtain C where C': "flags_store (fst wb) ''component'' = Some C" by auto
  then have C: "flags_store (fst w) ''component'' = Some C" unfolding sb sa by simp
  have s3: "flags_store (fst w3) = flags_store (fst wb)"
    using assms(3) m3 unfolding store_kept_def by (metis snd_conv)
  have sw: "flags_store (fst w') = (flags_store (fst wb))(''component'' \<mapsto> dict_update C r3)"
    unfolding w' using store_update_lookup [of w3 "''component''" C r3] C' s3 by simp
  have fin: "vv_flags (fst w') =
        (flags_store (fst w))(''dataset'' \<mapsto> dict_update D r1,
           ''sample'' \<mapsto> dict_update S r2, ''component'' \<mapsto> dict_update C r3)"
    unfolding vv_flags_def sw sb sa by simp
  have m2': "validate_samples cls (store_update ''dataset'' r1 w1) = (Inr r2, w2)"
    using m2 wa by simp
  have m3': "validate_components cls (store_update ''sample'' r2 w2) = (Inr r3, w3)"
    using m3 wb by simp
  have d1: "\<forall>e. dict_update D r1 e = (case r1 e of None \<Rightarrow> D e | Some fl \<Rightarrow> Some fl)"
    and d2: "\<forall>e. dict_update S r2 e = (case r2 e of None \<Rightarrow> S e | Some fl \<Rightarrow> Some fl)"
    and d3: "\<forall>e. dict_update C r3 e = (case r3 e of None \<Rightarrow> C e | Some fl \<Rightarrow> Some fl)"
    by (simp_all add: dict_update_lookup)
  from m1 m2' m3' w' D S C fin d1 d2 d3
  show "\<exists>r1 r2 r3 w1 w2 w3 D S C.
                  validate_dataset cls w = (Inr r1, w1)
                \<and> validate_samples cls (store_update ''dataset'' r1 w1) = (Inr r2, w2)
                \<and> validate_components cls (store_update ''sample'' r2 w2) = (Inr r3, w3)
                \<and> w' = store_update ''component'' r3 w3
                \<and> flags_store (fst w) ''dataset'' = Some D
                \<and> flags_store (fst w) ''sample'' = Some S
                \<and> flags_store (fst w) ''component'' = Some C
                \<and> vv_flags (fst w') =
                    (flags_store (fst w))(''dataset'' \<mapsto> dict_update D r1,
                       ''sample'' \<mapsto> dict_update S r2, ''component'' \<mapsto> dict_update C r3)
                \<and> (\<forall>e. dict_update D r1 e = (case r1 e of None \<Rightarrow> D e | Some fl \<Rightarrow> Some fl))
                \<and> (\<forall>e. dict_update S r2 e = (case r2 e of None \<Rightarrow> S e | Some fl \<Rightarrow> Some fl))
                \<and> (\<forall>e. dict_update C r3 e = (case r3 e of None \<Rightarrow> C e | Some fl \<Rightarrow> Some fl))"
    by blast
qed

theorem validate_all_updates_witness:
  "store_kept (validate_dataset scenario_protocol)
   \<and> store_kept (validate_samples scenario_protocol)
   \<and> store_kept (validate_components scenario_protocol)
   \<and> VVProtocol_init scenario_protocol () = Inr scenario_vv
   \<and> (\<exists>w'. validate_all scenario_protocol (scenario_vv, scenario_state'')
              = (Inr (), (w', [Call_validate_dataset, Call_validate_samples, Call_validate_components]))
          \<and> vv_flags (fst w') ''dataset'' = Some [0 \<mapsto> [green_flag]]
          \<and> vv_flags (fst w') ''sample'' = Some Map.empty
          \<and> vv_flags (fst w') ''component'' = Some [7 \<mapsto> [green_flag]])"
proof -
  note inst = validate_all_updates [OF scenario_protocol_store_kept,
      of "(scenario_vv, scenario_state'')", THEN conjunct2, THEN conjunct2, THEN conjunct2, rule_format,
      OF validate_all_first_call [of scenario_state'']]
  have "vv_flags (fst (scenario_vv', scenario_state'')) ''dataset'' = Some [0 \<mapsto> [green_flag]]
        \<and> vv_flags (fst (scenario_vv', scenario_state'')) ''sample'' = Some Map.empty
        \<and> vv_flags (fst (scenario_vv', scenario_state'')) ''component'' = Some [7 \<mapsto> [green_flag]]"
    using inst by (simp add: vv_flags_def scenario_vv'_def)
  with scenario_protocol_store_kept scenario_VVProtocol_init validate_all_first_call [of scenario_state'']
  show ?thesis by blast
qed

text \<open>
  C4. The claim: HALT1 .. HALT5 are five distinguishable members of rank 80 (likewise
  RED1 .. RED5 and YELLOW1 .. YELLOW5). On the code the five names of a group are bound
  to one and the same member, the first of the group: \<open>FlagCode.HALT2\<close> is
  \<open>FlagCode.HALT1\<close>, its name is \<open>HALT1\<close>, and the class has seven members.
\<close>

theorem FlagCode_same_rank_names_alias:
  "FlagCode_attr ''HALT2'' = FlagCode_attr ''HALT1''
   \<and> FlagCode_attr ''HALT5'' = FlagCode_attr ''HALT1''
   \<and> FlagCode_attr ''HALT2'' = Some (Member ''HALT1'' 80)
   \<and> FlagCode_attr ''RED3'' = FlagCode_attr ''RED1''
   \<and> FlagCode_attr ''YELLOW4'' = FlagCode_attr ''YELLOW1''
   \<and> length FlagCode_members = 7"
  by (simp add: FlagCode_attr_def FlagCode_members_def FlagCode_member_map_eval)




text \<open>
  C6. Once a check has been constructed with an ID, every later construction with
  that ID fails, whatever its description, configuration, \<open>flag_desc\<close> or function,
  and whatever operations of the module ran in between; the failure is the
  AssertionError of the uniqueness test when the new description formats. And in every
  state reached from the empty registry the registered IDs are pairwise different.
\<close>

theorem check_id_unique_in_registry:
  assumes "registry_kept funcs"
  shows "(\<forall>c st1. Check_init P d i fd vf fl_arg cfg_arg st = (Inr c, st1) \<longrightarrow>
            (\<exists>e. fst (Check_init P d' i fd' vf' fl_arg' cfg_arg'
                         (run P stc allowed funcs ops st1)) = Inl e)
            \<and> (\<forall>out. format_description P d' (case cfg_arg' of Some c \<Rightarrow> c | None \<Rightarrow> Map.empty)
                        = Inr out \<longrightarrow>
                  fst (Check_init P d' i fd' vf' fl_arg' cfg_arg' (run P stc allowed funcs ops st1))
                  = Inl (AssertionError ''CheckID already used, try another ID'')))
       \<and> distinct (registered_ids (run P stc allowed funcs ops' initial_state))"
proof (intro conjI allI impI)
  fix c st1
  assume ok: "Check_init P d i fd vf fl_arg cfg_arg st = (Inr c, st1)"
  then have cid: "check_id c = i" and fmt: "check_id_format i = Inr ()"
    and st1: "st1 = flag_desc_set c DEV_UNHANDLED dev_unhandled_template
                ((snd (init_flags fl_arg st))\<lparr>allChecks := allChecks (snd (init_flags fl_arg st)) @ [c]\<rparr>)"
    unfolding Check_init_unfold Check_post_init_success by auto
  have "i \<in> set (registered_ids st1)"
    unfolding st1 by (simp add: registered_ids_def flag_desc_set_frame cid)
  moreover have "registry_grows st1 (run P stc allowed funcs ops st1)"
    by (rule run_registry [OF assms])
  ultimately have used: "i \<in> set (registered_ids (run P stc allowed funcs ops st1))"
    by (auto simp: registry_grows_def)
  show "\<exists>e. fst (Check_init P d' i fd' vf' fl_arg' cfg_arg' (run P stc allowed funcs ops st1)) = Inl e"
    by (rule Check_init_used_id(1) [OF used])
  fix out
  assume "format_description P d' (case cfg_arg' of Some c \<Rightarrow> c | None \<Rightarrow> Map.empty) = Inr out"
  from Check_init_used_id(2) [OF used this fmt]
  show "fst (Check_init P d' i fd' vf' fl_arg' cfg_arg' (run P stc allowed funcs ops st1))
        = Inl (AssertionError ''CheckID already used, try another ID'')" .
next
  have "registry_grows initial_state (run P stc allowed funcs ops' initial_state)"
    by (rule run_registry [OF assms])
  moreover have "distinct (registered_ids initial_state)"
    by (simp add: registered_ids_def initial_state_def)
  ultimately show "distinct (registered_ids (run P stc allowed funcs ops' initial_state))"
    by (simp add: registry_grows_def)
qed

theorem check_id_unique_in_registry_witness:
  "registry_kept scenario_funcs
   \<and> Check_init plain_objects ''Check {x}'' (ustr ''DATASET_METADATA_0001'') 0 (Some 0) None
       (Some [''x'' \<mapsto> VStr ''present'']) scenario_state = (Inr (scenario_check 0), scenario_state' 0)
   \<and> fst (Check_init plain_objects ''another description'' (ustr ''DATASET_METADATA_0001'') 0 None None None
        (run plain_objects accept_all ALLOWED_DEV_EXCEPTIONS scenario_funcs
           [Call_validate (scenario_check 0) ()] (scenario_state' 0)))
       = Inl (AssertionError ''CheckID already used, try another ID'')
   \<and> distinct (registered_ids (run plain_objects accept_all ALLOWED_DEV_EXCEPTIONS scenario_funcs
        [New_dict scenario_flag_desc,
         New_Check ''Check {x}'' (ustr ''DATASET_METADATA_0001'') 0 (Some 0) None (Some [''x'' \<mapsto> VStr ''present'']),
         New_Check ''Check {x}'' (ustr ''DATASET_METADATA_0001'') 0 (Some 1) None (Some [''x'' \<mapsto> VStr ''other''])]
        initial_state))"
proof -
  have fmt: "format_description plain_objects ''another description''
               (case None of Some c \<Rightarrow> c | None \<Rightarrow> Map.empty) = Inr ''another description''"
    unfolding format_description_def by code_simp
  note inst = check_id_unique_in_registry [OF scenario_funcs_registry_kept,
      where P = plain_objects and stc = accept_all and allowed = ALLOWED_DEV_EXCEPTIONS]
  from inst [where d = "''Check {x}''" and i = "(ustr ''DATASET_METADATA_0001'')" and fd = 0
      and vf = "Some 0" and fl_arg = None and cfg_arg = "Some [''x'' \<mapsto> VStr ''present'']"
      and st = scenario_state and d' = "''another description''" and fd' = 0 and vf' = None
      and fl_arg' = None and cfg_arg' = None and ops = "[Call_validate (scenario_check 0) ()]",
      THEN conjunct1, rule_format, OF scenario_Check_init, THEN conjunct2, rule_format, OF fmt]
  have 1: "fst (Check_init plain_objects ''another description'' (ustr ''DATASET_METADATA_0001'') 0 None None None
        (run plain_objects accept_all ALLOWED_DEV_EXCEPTIONS scenario_funcs
           [Call_validate (scenario_check 0) ()] (scenario_state' 0)))
       = Inl (AssertionError ''CheckID already used, try another ID'')" .
  from inst [THEN conjunct2]
  have 2: "distinct (registered_ids (run plain_objects accept_all ALLOWED_DEV_EXCEPTIONS scenario_funcs
        [New_dict scenario_flag_desc,
         New_Check ''Check {x}'' (ustr ''DATASET_METADATA_0001'') 0 (Some 0) None (Some [''x'' \<mapsto> VStr ''present'']),
         New_Check ''Check {x}'' (ustr ''DATASET_METADATA_0001'') 0 (Some 1) None (Some [''x'' \<mapsto> VStr ''other''])]
        initial_state))" .
  from scenario_funcs_registry_kept scenario_Check_init [of 0] 1 2 show ?thesis by blast
qed

text \<open>
  C7. The construction of a flag fails with a KeyError when its code is not a key of
  the check's \<open>flag_desc\<close>, and when the message template (literal text and named
  placeholders) refers to a key that \<open>message_args\<close> lacks; a failed construction
  changes nothing. A construction that succeeds appends the flag to the check's \<open>flags\<close>,
  once: the list afterwards is the list before followed by the flag, and no other list,
  dictionary or the registry changes.
\<close>

theorem Flag_construction:
  assumes "allocated chk st"
  shows "(flag_desc_get chk c st = None \<longrightarrow>
            Flag_init P stc c chk args st = (Inl (KeyError (member_name c)), st))
       \<and> (\<forall>segs k. flag_desc_get chk c st = Some (template_text segs) \<and> plain_keys segs
              \<and> find (\<lambda>k. args k = None) (holes segs) = Some k \<longrightarrow>
            Flag_init P stc c chk args st = (Inl (KeyError k), st))
       \<and> (\<forall>f st'. Flag_init P stc c chk args st = (Inr f, st') \<longrightarrow>
            flags_of chk st' = flags_of chk st @ [f]
            \<and> count_list (flags_of chk st') f = Suc (count_list (flags_of chk st) f)
            \<and> code f = c \<and> check f = chk \<and> message_args f = args
            \<and> (\<exists>t. flag_desc_get chk c st = Some t \<and> str_format P t args = Inr (message f))
            \<and> (\<forall>a. a \<noteq> flags chk \<longrightarrow> list_heap st' ! a = list_heap st ! a)
            \<and> allChecks st' = allChecks st \<and> dict_heap st' = dict_heap st)"
proof (intro conjI allI impI)
  assume "flag_desc_get chk c st = None"
  then show "Flag_init P stc c chk args st = (Inl (KeyError (member_name c)), st)"
    by (simp add: Flag_init_def)
next
  fix segs k
  assume a: "flag_desc_get chk c st = Some (template_text segs) \<and> plain_keys segs
              \<and> find (\<lambda>k. args k = None) (holes segs) = Some k"
  then have "str_format P (template_text segs) args = Inl (KeyError k)"
    by (simp add: str_format_template fill_first_missing)
  with a show "Flag_init P stc c chk args st = (Inl (KeyError k), st)"
    by (simp add: Flag_init_def)
next
  fix f st'
  assume ok: "Flag_init P stc c chk args st = (Inr f, st')"
  then obtain t msg where t: "flag_desc_get chk c st = Some t" "str_format P t args = Inr msg"
    and f: "f = \<lparr>code = c, check = chk, message_args = args, message = msg\<rparr>"
    and st': "st' = flags_append chk f st"
    unfolding Flag_init_success by blast
  from assms have fl: "flags chk < length (list_heap st)" by (simp add: allocated_def)
  show app: "flags_of chk st' = flags_of chk st @ [f]"
    unfolding st' by (rule flags_of_flags_append [OF fl])
  show "count_list (flags_of chk st') f = Suc (count_list (flags_of chk st) f)"
    unfolding app by simp
  show "code f = c" "check f = chk" "message_args f = args" using f by simp_all
  show "\<exists>t. flag_desc_get chk c st = Some t \<and> str_format P t args = Inr (message f)"
    using t f by simp
  show "allChecks st' = allChecks st" "dict_heap st' = dict_heap st"
    unfolding st' by (simp_all add: flags_append_frame)
  fix a
  assume "a \<noteq> flags chk"
  then show "list_heap st' ! a = list_heap st ! a"
    unfolding st' by (rule list_heap_flags_append_other)
qed

theorem Flag_construction_witness:
  "allocated (scenario_check 0) (scenario_state' 0)
   \<and> Flag_init plain_objects accept_all (Member ''HALT1'' 80) (scenario_check 0) Map.empty
        (scenario_state' 0) = (Inl (KeyError ''HALT1''), scenario_state' 0)
   \<and> Flag_init plain_objects accept_all DEV_UNHANDLED (scenario_check 0) [''e'' \<mapsto> VNone]
        (scenario_state' 0) = (Inl (KeyError ''function''), scenario_state' 0)
   \<and> flags_of (scenario_check 0)
        (snd (Flag_init plain_objects accept_all GREEN (scenario_check 0) Map.empty
               (scenario_state' 0))) = [green_flag]"
proof -
  note inst = Flag_construction [OF scenario_allocated [of 0], of _ plain_objects accept_all]
  have tmpl: "dev_unhandled_template =
      template_text [Text ''An unhandled exception occured in '', Placeholder ''function'',
                     Text '': '', Placeholder ''e'']"
    "plain_keys [Text ''An unhandled exception occured in '', Placeholder ''function'',
                     Text '': '', Placeholder ''e'']"
    by (simp_all add: dev_unhandled_template_def escape_braces_def plain_key_def is_digit_char)
  have 1: "Flag_init plain_objects accept_all (Member ''HALT1'' 80) (scenario_check 0) Map.empty
        (scenario_state' 0) = (Inl (KeyError ''HALT1''), scenario_state' 0)"
    using inst [of "Member ''HALT1'' 80" Map.empty] by (simp add: scenario_flag_desc_get)
  have 2: "Flag_init plain_objects accept_all DEV_UNHANDLED (scenario_check 0) [''e'' \<mapsto> VNone]
        (scenario_state' 0) = (Inl (KeyError ''function''), scenario_state' 0)"
    using inst [of DEV_UNHANDLED "[''e'' \<mapsto> VNone]", THEN conjunct2, THEN conjunct1, rule_format,
        of "[Text ''An unhandled exception occured in '', Placeholder ''function'',
             Text '': '', Placeholder ''e'']" "''function''"] tmpl
    by (simp add: scenario_flag_desc_get)
  have 3: "flags_of (scenario_check 0)
        (snd (Flag_init plain_objects accept_all GREEN (scenario_check 0) Map.empty
               (scenario_state' 0))) = [green_flag]"
  proof -
    have "flags_of (scenario_check 0) (flags_append (scenario_check 0) green_flag (scenario_state' 0))
          = flags_of (scenario_check 0) (scenario_state' 0) @ [green_flag]"
      using inst [of GREEN Map.empty] scenario_green_Flag_init by blast
    then show ?thesis by (simp add: scenario_green_Flag_init scenario_flags_of)
  qed
  from scenario_allocated [of 0] 1 2 3 show ?thesis by blast
qed

text \<open>
  C8. A check returned by \<open>copy_with_new_config\<close> has an empty \<open>flags\<close> list of its
  own (a new list, not the source's, whose history is left as it was), the source's
  description template as it was before formatting, the source's \<open>flag_desc\<close> and
  \<open>validate_func\<close>, and the \<open>id\<close> and \<open>config\<close> of the call; its description is the
  template formatted against the new \<open>config\<close>.
\<close>

theorem copy_with_new_config_fresh:
  assumes "copy_with_new_config P self i cfg st = (Inr c, st')" and "allocated self st"
  shows "flags_of c st' = [] \<and> flags c \<noteq> flags self \<and> flags_of self st' = flags_of self st
       \<and> proto_description c = proto_description self
       \<and> flag_desc c = flag_desc self \<and> validate_func c = validate_func self
       \<and> check_id c = i \<and> config c = cfg
       \<and> format_description P (proto_description self) cfg = Inr (description c)"
proof -
  from copy_with_new_config_success [OF assms(1)]
  obtain d' where d': "format_description P (proto_description self) cfg = Inr d'"
    and c: "c = \<lparr>description = d', check_id = i, flag_desc = flag_desc self,
                 validate_func = validate_func self, flags = length (list_heap st), config = cfg,
                 proto_description = proto_description self\<rparr>"
    and st': "st' = flag_desc_set c DEV_UNHANDLED dev_unhandled_template
                   (st\<lparr>list_heap := list_heap st @ [[]], allChecks := allChecks st @ [c]\<rparr>)"
    by blast
  from assms(2) have fl: "flags self < length (list_heap st)" by (simp add: allocated_def)
  have lh: "list_heap st' = list_heap st @ [[]]"
    unfolding st' by (simp add: flag_desc_set_frame)
  have "flags_of c st' = []"
    unfolding flags_of_def lh using c by simp
  moreover have "flags c \<noteq> flags self" using c fl by simp
  moreover have "flags_of self st' = flags_of self st"
    unfolding flags_of_def lh using fl by (simp add: nth_append)
  ultimately show ?thesis using c d' by simp
qed

theorem copy_with_new_config_fresh_witness:
  "allocated (scenario_check 0) scenario_state''
   \<and> flags_of (scenario_check 0) scenario_state'' = [green_flag]
   \<and> (\<exists>c st'. copy_with_new_config plain_objects (scenario_check 0) (ustr ''SAMPLE_METADATA_0002'')
                 [''x'' \<mapsto> VStr ''other''] scenario_state'' = (Inr c, st')
         \<and> flags_of c st' = [] \<and> flags_of (scenario_check 0) st' = [green_flag]
         \<and> proto_description c = ''Check {x}'' \<and> description c = ''Check other''
         \<and> check_id c = (ustr ''SAMPLE_METADATA_0002''))"
proof -
  have fl: "flags_of (scenario_check 0) scenario_state'' = [green_flag]"
    by (simp add: flags_of_def scenario_state''_eval scenario_check_def)
  note inst = copy_with_new_config_fresh [OF scenario_copy_with_new_config scenario_allocated'']
  have "flags_of scenario_copy
          \<lparr>allChecks = [scenario_check 0, scenario_copy],
           dict_heap = [scenario_flag_desc(DEV_UNHANDLED \<mapsto> dev_unhandled_template)],
           list_heap = [[green_flag], []], log_critical = []\<rparr> = []
        \<and> flags_of (scenario_check 0)
          \<lparr>allChecks = [scenario_check 0, scenario_copy],
           dict_heap = [scenario_flag_desc(DEV_UNHANDLED \<mapsto> dev_unhandled_template)],
           list_heap = [[green_flag], []], log_critical = []\<rparr> = [green_flag]
        \<and> proto_description scenario_copy = ''Check {x}''
        \<and> description scenario_copy = ''Check other''
        \<and> check_id scenario_copy = (ustr ''SAMPLE_METADATA_0002'')"
    using inst fl by (simp add: scenario_check_def scenario_copy_def)
  with scenario_copy_with_new_config scenario_allocated'' fl show ?thesis by blast
qed

text \<open>
  C9. Construction formats the description against \<open>config\<close> at once. For a template
  made of literal text and named placeholders: when a placeholder's key is absent from
  \<open>config\<close> construction fails with the KeyError of the first such key and registers
  nothing; when every placeholder's key is present the formatting step succeeds, the
  check's description is the formatted text and the template is kept; and the outcome
  of the step depends on \<open>config\<close> only through the keys the template refers to, so
  extra keys and omitted keys it does not refer to make no difference. For a template
  of any kind, a description that formats against \<open>config\<close> formats to the same text
  against \<open>config\<close> with further keys.
\<close>

theorem description_formatted_at_construction:
  assumes "plain_keys segs"
  shows "(\<forall>k. find (\<lambda>k. cfg k = None) (holes segs) = Some k \<longrightarrow>
            fst (Check_init P (template_text segs) i fd vf fl_arg (Some cfg) st) = Inl (KeyError k)
            \<and> allChecks (snd (Check_init P (template_text segs) i fd vf fl_arg (Some cfg) st))
                = allChecks st)
       \<and> (list_all (\<lambda>k. cfg k \<noteq> None) (holes segs) \<longrightarrow>
            (\<exists>out. format_description P (template_text segs) cfg = Inr out
               \<and> (\<forall>c st'. Check_init P (template_text segs) i fd vf fl_arg (Some cfg) st = (Inr c, st')
                      \<longrightarrow> description c = out \<and> proto_description c = template_text segs)
               \<and> (check_id_format i = Inr () \<and> check_id_unique i st = Inr () \<longrightarrow>
                      (\<exists>c st'. Check_init P (template_text segs) i fd vf fl_arg (Some cfg) st
                                = (Inr c, st')))))
       \<and> ((\<forall>k \<in> set (holes segs). cfg' k = cfg k) \<longrightarrow>
            format_description P (template_text segs) cfg'
            = format_description P (template_text segs) cfg)
       \<and> (\<forall>t out. cfg \<subseteq>\<^sub>m cfg'' \<and> format_description P t cfg = Inr out \<longrightarrow>
            format_description P t cfg'' = Inr out)"
proof (intro conjI allI impI)
  fix k
  assume "find (\<lambda>k. cfg k = None) (holes segs) = Some k"
  then have "format_description P (template_text segs) cfg = Inl (KeyError k)"
    using assms by (simp add: format_description_def str_format_template fill_first_missing)
  from Check_init_format_failure [OF this]
  have r: "Check_init P (template_text segs) i fd vf fl_arg (Some cfg) st
           = (Inl (KeyError k), snd (init_flags fl_arg st))" .
  show "fst (Check_init P (template_text segs) i fd vf fl_arg (Some cfg) st) = Inl (KeyError k)"
    by (simp add: r)
  show "allChecks (snd (Check_init P (template_text segs) i fd vf fl_arg (Some cfg) st))
        = allChecks st"
    by (simp add: r init_flags_frame)
next
  assume "list_all (\<lambda>k. cfg k \<noteq> None) (holes segs)"
  from fill_all_present [OF this, of P]
  obtain out where "fill P cfg segs = Inr out" by blast
  then have out: "format_description P (template_text segs) cfg = Inr out"
    using assms by (simp add: format_description_def str_format_template)
  have a: "\<forall>c st'. Check_init P (template_text segs) i fd vf fl_arg (Some cfg) st = (Inr c, st')
                \<longrightarrow> description c = out \<and> proto_description c = template_text segs"
  proof (intro allI impI)
    fix c st'
    assume ok: "Check_init P (template_text segs) i fd vf fl_arg (Some cfg) st = (Inr c, st')"
    from Check_init_description [OF ok] out have "description c = out" by simp
    moreover have "proto_description c = template_text segs"
      using ok unfolding Check_init_unfold Check_post_init_success by auto
    ultimately show "description c = out \<and> proto_description c = template_text segs" ..
  qed
  have b: "check_id_format i = Inr () \<and> check_id_unique i st = Inr () \<longrightarrow>
           (\<exists>c st'. Check_init P (template_text segs) i fd vf fl_arg (Some cfg) st = (Inr c, st'))"
    using Check_init_succeeds [OF out] by blast
  from out a b
  show "\<exists>out. format_description P (template_text segs) cfg = Inr out
          \<and> (\<forall>c st'. Check_init P (template_text segs) i fd vf fl_arg (Some cfg) st = (Inr c, st')
                 \<longrightarrow> description c = out \<and> proto_description c = template_text segs)
          \<and> (check_id_format i = Inr () \<and> check_id_unique i st = Inr () \<longrightarrow>
                 (\<exists>c st'. Check_init P (template_text segs) i fd vf fl_arg (Some cfg) st
                           = (Inr c, st')))"
    by blast
next
  assume "\<forall>k \<in> set (holes segs). cfg' k = cfg k"
  then show "format_description P (template_text segs) cfg'
             = format_description P (template_text segs) cfg"
    using assms by (simp add: format_description_def str_format_template fill_cong)
next
  fix t out
  assume "cfg \<subseteq>\<^sub>m cfg'' \<and> format_description P t cfg = Inr out"
  then show "format_description P t cfg'' = Inr out"
    by (blast intro: format_description_mono)
qed

theorem description_formatted_at_construction_witness:
  "plain_keys [Text ''Check '', Placeholder ''x'']
   \<and> fst (Check_init plain_objects ''Check {x}'' (ustr ''DATASET_METADATA_0001'') 0 (Some 0) None
            (Some [''y'' \<mapsto> VStr ''extra'']) scenario_state) = Inl (KeyError ''x'')
   \<and> format_description plain_objects ''Check {x}'' [''x'' \<mapsto> VStr ''present'', ''y'' \<mapsto> VStr ''extra'']
       = format_description plain_objects ''Check {x}'' [''x'' \<mapsto> VStr ''present'']
   \<and> (\<exists>c st'. Check_init plain_objects ''Check {x}'' (ustr ''DATASET_METADATA_0001'') 0 (Some 0) None
                 (Some [''x'' \<mapsto> VStr ''present'']) scenario_state = (Inr c, st')
               \<and> description c = ''Check present'')"
proof -
  note inst = description_formatted_at_construction [OF scenario_template(2), unfolded scenario_template]
  have 1: "fst (Check_init plain_objects ''Check {x}'' (ustr ''DATASET_METADATA_0001'') 0 (Some 0) None
            (Some [''y'' \<mapsto> VStr ''extra'']) scenario_state) = Inl (KeyError ''x'')"
    using inst [of "[''y'' \<mapsto> VStr ''extra'']" plain_objects "(ustr ''DATASET_METADATA_0001'')" 0 "Some 0"
        None scenario_state, THEN conjunct1, rule_format, of "''x''", THEN conjunct1]
    by simp
  have 2: "format_description plain_objects ''Check {x}'' [''x'' \<mapsto> VStr ''present'', ''y'' \<mapsto> VStr ''extra'']
       = format_description plain_objects ''Check {x}'' [''x'' \<mapsto> VStr ''present'']"
    using inst [of "[''x'' \<mapsto> VStr ''present'']" plain_objects _ _ _ _ _
        "[''x'' \<mapsto> VStr ''present'', ''y'' \<mapsto> VStr ''extra'']",
        THEN conjunct2, THEN conjunct2, THEN conjunct1]
    by simp
  have 3: "\<exists>c st'. Check_init plain_objects ''Check {x}'' (ustr ''DATASET_METADATA_0001'') 0 (Some 0) None
                 (Some [''x'' \<mapsto> VStr ''present'']) scenario_state = (Inr c, st')
               \<and> description c = ''Check present''"
    by (simp add: scenario_Check_init scenario_check_def)
  from scenario_template(2) 1 2 3 show ?thesis by blast
qed

text \<open>
  C10. Construction stores \<open>flag_desc\<close> as it was passed and writes the DEV_UNHANDLED
  template into that dictionary, in place: the dictionary at the caller's address is
  the old one with that entry set. \<open>copy_with_new_config\<close> constructs a new check
  with the new ID and passes the source's \<open>flag_desc\<close> on: the copy is appended to the
  registry, no dictionary is allocated for it, it holds the address the source holds,
  and the construction of the copy writes the template into that one dictionary once
  more, every other dictionary staying as it was. So the copy and the source read the
  same entries after the copy is made, and in every later state an entry set through
  either of them is read through the other.
\<close>

theorem flag_desc_shared_in_place:
  "(\<forall>c st'. Check_init P d i fd vf fl_arg cfg_arg st = (Inr c, st') \<and> fd < length (dict_heap st) \<longrightarrow>
       flag_desc c = fd
       \<and> dict_heap st' = (dict_heap st)[fd := (dict_heap st ! fd)(DEV_UNHANDLED \<mapsto> dev_unhandled_template)]
       \<and> flag_desc_get c DEV_UNHANDLED st' = Some dev_unhandled_template)
   \<and> (\<forall>c' st2. copy_with_new_config P src i' cfg' st1 = (Inr c', st2) \<longrightarrow>
       flag_desc c' = flag_desc src
       \<and> check_id c' = i' \<and> i' \<notin> set (registered_ids st1)
       \<and> c' \<notin> set (allChecks st1)
       \<and> allChecks st2 = allChecks st1 @ [c']
       \<and> dict_heap st2 = (dict_heap st1)[flag_desc src :=
             (dict_heap st1 ! flag_desc src)(DEV_UNHANDLED \<mapsto> dev_unhandled_template)]
       \<and> length (dict_heap st2) = length (dict_heap st1)
       \<and> (\<forall>k. flag_desc_get c' k st2 = flag_desc_get src k st2)
       \<and> (\<forall>k. k \<noteq> DEV_UNHANDLED \<longrightarrow> flag_desc_get src k st2 = flag_desc_get src k st1)
       \<and> (flag_desc src < length (dict_heap st1) \<longrightarrow>
             flag_desc_get src DEV_UNHANDLED st2 = Some dev_unhandled_template
             \<and> flag_desc_get c' DEV_UNHANDLED st2 = Some dev_unhandled_template
             \<and> (\<forall>k v. flag_desc_get c' k (flag_desc_set src k v st2) = Some v
                      \<and> flag_desc_get src k (flag_desc_set c' k v st2) = Some v))
       \<and> (\<forall>k v (s::state). flag_desc src < length (dict_heap s) \<longrightarrow>
             flag_desc_get c' k (flag_desc_set src k v s) = Some v
             \<and> flag_desc_get src k (flag_desc_set c' k v s) = Some v))"
proof (intro conjI allI impI)
  fix c st'
  assume a: "Check_init P d i fd vf fl_arg cfg_arg st = (Inr c, st') \<and> fd < length (dict_heap st)"
  then have c: "flag_desc c = fd"
    and st': "st' = flag_desc_set c DEV_UNHANDLED dev_unhandled_template
                ((snd (init_flags fl_arg st))\<lparr>allChecks := allChecks (snd (init_flags fl_arg st)) @ [c]\<rparr>)"
    unfolding Check_init_unfold Check_post_init_success by auto
  show "flag_desc c = fd" by (rule c)
  show dh: "dict_heap st' = (dict_heap st)[fd := (dict_heap st ! fd)(DEV_UNHANDLED \<mapsto> dev_unhandled_template)]"
    unfolding st' by (simp add: flag_desc_set_def c init_flags_frame)
  show "flag_desc_get c DEV_UNHANDLED st' = Some dev_unhandled_template"
    unfolding flag_desc_get_def dh c using a by simp
next
  fix c' st2
  assume copy: "copy_with_new_config P src i' cfg' st1 = (Inr c', st2)"
  from copy_with_new_config_success [OF copy]
  obtain d' where c': "c' = \<lparr>description = d', check_id = i', flag_desc = flag_desc src,
                 validate_func = validate_func src, flags = length (list_heap st1), config = cfg',
                 proto_description = proto_description src\<rparr>"
    and st2: "st2 = flag_desc_set c' DEV_UNHANDLED dev_unhandled_template
                   (st1\<lparr>list_heap := list_heap st1 @ [[]], allChecks := allChecks st1 @ [c']\<rparr>)"
    by blast
  show fd: "flag_desc c' = flag_desc src" using c' by simp
  show "check_id c' = i'" using c' by simp
  from copy have "check_id_unique i' st1 = Inr ()"
    unfolding copy_with_new_config_def Check_init_unfold Check_post_init_success
    by (auto simp: check_id_unique_def init_flags_frame split: if_splits)
  then show fresh: "i' \<notin> set (registered_ids st1)"
    by (simp add: check_id_unique_def registered_ids_def split: if_splits)
  show "c' \<notin> set (allChecks st1)"
  proof
    assume "c' \<in> set (allChecks st1)"
    then have "check_id c' \<in> set (registered_ids st1)" by (simp add: registered_ids_def)
    with fresh c' show False by simp
  qed
  show "allChecks st2 = allChecks st1 @ [c']"
    unfolding st2 by (simp add: flag_desc_set_frame)
  show dh: "dict_heap st2 = (dict_heap st1)[flag_desc src :=
             (dict_heap st1 ! flag_desc src)(DEV_UNHANDLED \<mapsto> dev_unhandled_template)]"
    unfolding st2 by (simp add: flag_desc_set_def fd)
  show "length (dict_heap st2) = length (dict_heap st1)"
    unfolding dh by simp
  show "flag_desc_get c' k st2 = flag_desc_get src k st2" for k
    by (simp add: flag_desc_get_def fd)
  show "flag_desc_get src k st2 = flag_desc_get src k st1" if "k \<noteq> DEV_UNHANDLED" for k
  proof (cases "flag_desc src < length (dict_heap st1)")
    case True
    then show ?thesis using that unfolding flag_desc_get_def dh by simp
  next
    case False
    then show ?thesis unfolding flag_desc_get_def dh by (simp add: list_update_beyond)
  qed
  show "flag_desc_get c' k (flag_desc_set src k v s) = Some v"
    and "flag_desc_get src k (flag_desc_set c' k v s) = Some v"
    if "flag_desc src < length (dict_heap s)" for k v and s :: state
    using that by (simp_all add: flag_desc_get_def flag_desc_set_def fd)
  assume al: "flag_desc src < length (dict_heap st1)"
  show "flag_desc_get src DEV_UNHANDLED st2 = Some dev_unhandled_template"
    unfolding flag_desc_get_def dh using al by simp
  show "flag_desc_get c' DEV_UNHANDLED st2 = Some dev_unhandled_template"
    unfolding flag_desc_get_def dh fd using al by simp
  have al2: "flag_desc src < length (dict_heap st2)" unfolding dh using al by simp
  show "flag_desc_get c' k (flag_desc_set src k v st2) = Some v" for k v
    using al2 by (simp add: flag_desc_get_def flag_desc_set_def fd)
  show "flag_desc_get src k (flag_desc_set c' k v st2) = Some v" for k v
    using al2 by (simp add: flag_desc_get_def flag_desc_set_def fd)
qed

theorem flag_desc_shared_in_place_witness:
  "(\<exists>c st'. Check_init plain_objects ''Check {x}'' (ustr ''DATASET_METADATA_0001'') 0 (Some 0) None
       (Some [''x'' \<mapsto> VStr ''present'']) scenario_state = (Inr c, st')
       \<and> dict_heap scenario_state ! 0 = scenario_flag_desc
       \<and> dict_heap st' ! 0 = scenario_flag_desc(DEV_UNHANDLED \<mapsto> dev_unhandled_template))
   \<and> (\<exists>c' st2. copy_with_new_config plain_objects (scenario_check 0) (ustr ''SAMPLE_METADATA_0002'')
                 [''x'' \<mapsto> VStr ''other''] scenario_state'' = (Inr c', st2)
         \<and> flag_desc (scenario_check 0) < length (dict_heap scenario_state'')
         \<and> flag_desc c' = flag_desc (scenario_check 0)
         \<and> check_id c' = ustr ''SAMPLE_METADATA_0002''
         \<and> allChecks st2 = allChecks scenario_state'' @ [c']
         \<and> length (dict_heap st2) = length (dict_heap scenario_state'')
         \<and> flag_desc_get c' GREEN st2 = flag_desc_get (scenario_check 0) GREEN st2
         \<and> flag_desc_get (scenario_check 0) GREEN st2
             = flag_desc_get (scenario_check 0) GREEN scenario_state''
         \<and> flag_desc_get c' DEV_UNHANDLED st2 = Some dev_unhandled_template
         \<and> flag_desc_get (scenario_check 0) DEV_UNHANDLED st2 = Some dev_unhandled_template
         \<and> flag_desc_get c' GREEN (flag_desc_set (scenario_check 0) GREEN ''fine'' st2) = Some ''fine''
         \<and> flag_desc_get (scenario_check 0) GREEN (flag_desc_set c' GREEN ''fine'' st2) = Some ''fine'')"
proof -
  note inst1 = flag_desc_shared_in_place [where P = plain_objects and d = "''Check {x}''"
      and i = "ustr ''DATASET_METADATA_0001''" and fd = 0 and vf = "Some 0" and fl_arg = None
      and cfg_arg = "Some [''x'' \<mapsto> VStr ''present'']" and st = scenario_state,
      THEN conjunct1, rule_format, of "scenario_check 0" "scenario_state' 0"]
  have 0: "dict_heap scenario_state = [scenario_flag_desc]"
    by (simp add: scenario_state_def new_dict_def initial_state_def)
  have 1: "dict_heap (scenario_state' 0) ! 0 = scenario_flag_desc(DEV_UNHANDLED \<mapsto> dev_unhandled_template)"
    using inst1 by (simp add: scenario_Check_init 0)
  note inst2 = flag_desc_shared_in_place [where P = plain_objects and src = "scenario_check 0"
      and i' = "ustr ''SAMPLE_METADATA_0002''" and cfg' = "[''x'' \<mapsto> VStr ''other'']"
      and ?st1.0 = scenario_state'', THEN conjunct2, rule_format,
      OF scenario_copy_with_new_config]
  have al: "flag_desc (scenario_check 0) < length (dict_heap scenario_state'')"
    using scenario_allocated'' by (simp add: allocated_def)
  have green: "GREEN \<noteq> DEV_UNHANDLED" by (simp add: GREEN_def DEV_UNHANDLED_def)
  let ?st2 = "\<lparr>allChecks = [scenario_check 0, scenario_copy],
              dict_heap = [scenario_flag_desc(DEV_UNHANDLED \<mapsto> dev_unhandled_template)],
              list_heap = [[green_flag], []], log_critical = []\<rparr>"
  from inst2 have a: "flag_desc scenario_copy = flag_desc (scenario_check 0)"
    and b: "check_id scenario_copy = ustr ''SAMPLE_METADATA_0002''"
    and c: "allChecks ?st2 = allChecks scenario_state'' @ [scenario_copy]"
    and d: "length (dict_heap ?st2) = length (dict_heap scenario_state'')"
    and e: "\<forall>k. flag_desc_get scenario_copy k ?st2 = flag_desc_get (scenario_check 0) k ?st2"
    and f: "\<forall>k. k \<noteq> DEV_UNHANDLED \<longrightarrow>
              flag_desc_get (scenario_check 0) k ?st2 = flag_desc_get (scenario_check 0) k scenario_state''"
    and g: "flag_desc (scenario_check 0) < length (dict_heap scenario_state'') \<longrightarrow>
             flag_desc_get (scenario_check 0) DEV_UNHANDLED ?st2 = Some dev_unhandled_template
             \<and> flag_desc_get scenario_copy DEV_UNHANDLED ?st2 = Some dev_unhandled_template
             \<and> (\<forall>k v. flag_desc_get scenario_copy k (flag_desc_set (scenario_check 0) k v ?st2) = Some v
                      \<and> flag_desc_get (scenario_check 0) k (flag_desc_set scenario_copy k v ?st2) = Some v)"
    by blast+
  from g al have h: "flag_desc_get (scenario_check 0) DEV_UNHANDLED ?st2 = Some dev_unhandled_template"
    "flag_desc_get scenario_copy DEV_UNHANDLED ?st2 = Some dev_unhandled_template"
    "flag_desc_get scenario_copy GREEN (flag_desc_set (scenario_check 0) GREEN ''fine'' ?st2) = Some ''fine''"
    "flag_desc_get (scenario_check 0) GREEN (flag_desc_set scenario_copy GREEN ''fine'' ?st2) = Some ''fine''"
    by blast+
  from e have e': "flag_desc_get scenario_copy GREEN ?st2 = flag_desc_get (scenario_check 0) GREEN ?st2"
    by blast
  from f green have f': "flag_desc_get (scenario_check 0) GREEN ?st2
      = flag_desc_get (scenario_check 0) GREEN scenario_state''"
    by blast
  have second: "\<exists>c' st2. copy_with_new_config plain_objects (scenario_check 0) (ustr ''SAMPLE_METADATA_0002'')
                 [''x'' \<mapsto> VStr ''other''] scenario_state'' = (Inr c', st2)
         \<and> flag_desc (scenario_check 0) < length (dict_heap scenario_state'')
         \<and> flag_desc c' = flag_desc (scenario_check 0)
         \<and> check_id c' = ustr ''SAMPLE_METADATA_0002''
         \<and> allChecks st2 = allChecks scenario_state'' @ [c']
         \<and> length (dict_heap st2) = length (dict_heap scenario_state'')
         \<and> flag_desc_get c' GREEN st2 = flag_desc_get (scenario_check 0) GREEN st2
         \<and> flag_desc_get (scenario_check 0) GREEN st2
             = flag_desc_get (scenario_check 0) GREEN scenario_state''
         \<and> flag_desc_get c' DEV_UNHANDLED st2 = Some dev_unhandled_template
         \<and> flag_desc_get (scenario_check 0) DEV_UNHANDLED st2 = Some dev_unhandled_template
         \<and> flag_desc_get c' GREEN (flag_desc_set (scenario_check 0) GREEN ''fine'' st2) = Some ''fine''
         \<and> flag_desc_get (scenario_check 0) GREEN (flag_desc_set c' GREEN ''fine'' st2) = Some ''fine''"
    by (intro exI [of _ scenario_copy] exI [of _ ?st2] conjI
        scenario_copy_with_new_config al a b c d e' f' h)
  have first: "\<exists>c st'. Check_init plain_objects ''Check {x}'' (ustr ''DATASET_METADATA_0001'') 0 (Some 0) None
       (Some [''x'' \<mapsto> VStr ''present'']) scenario_state = (Inr c, st')
       \<and> dict_heap scenario_state ! 0 = scenario_flag_desc
       \<and> dict_heap st' ! 0 = scenario_flag_desc(DEV_UNHANDLED \<mapsto> dev_unhandled_template)"
    using 0 1 scenario_Check_init [of 0] by (metis nth_Cons_0)
  from first second show ?thesis by (rule conjI)
qed

end
